theory Spec2Isabelle
  imports Main "HOL-Library.Word"
begin

unbundle bit_operations_syntax

section \<open>UART NIC: the serial bridge of \<^verbatim>\<open>main/uart_nic.c\<close>\<close>

subsection \<open>Bytes and the serial receive side\<close>

type_synonym byte = "8 word"

text \<open>
  What the UART driver hands to one call of \<^verbatim>\<open>uart_read_bytes\<close> is decided by the
  receive line, which is modelled as a finite list of events: a received byte, a read
  that comes back empty (a driver time-out), or a read that comes back negative.
  When the list is used up nothing arrives any more and a read with
  \<^verbatim>\<open>portMAX_DELAY\<close> never returns: that is the value \<open>None\<close>.
\<close>

datatype rx_event = Rx byte | RxTimeout | RxError

fun uart_take :: "nat \<Rightarrow> rx_event list \<Rightarrow> byte list \<times> rx_event list" where
  "uart_take (Suc n) (Rx b # es) = (case uart_take n es of (bs, r) \<Rightarrow> (b # bs, r))"
| "uart_take n es = ([], es)"

text \<open>
  \<^verbatim>\<open>uart_read_bytes(UART_NUM_0, buf, n, portMAX_DELAY)\<close>: the return value, the bytes
  stored at \<^verbatim>\<open>buf\<close>, and the rest of the line.
\<close>

fun uart_read_bytes :: "nat \<Rightarrow> rx_event list \<Rightarrow> (int \<times> byte list \<times> rx_event list) option" where
  "uart_read_bytes n [] = None"
| "uart_read_bytes n (RxError # es) = Some (- 1, [], es)"
| "uart_read_bytes n (RxTimeout # es) = Some (0, [], es)"
| "uart_read_bytes n (Rx b # es) =
     (case uart_take n (Rx b # es) of (bs, r) \<Rightarrow> Some (int (length bs), bs, r))"

lemma uart_take_length: "uart_take n es = (bs, r) \<Longrightarrow> length r + length bs = length es"
  by (induction n es arbitrary: bs r rule: uart_take.induct) (auto split: prod.splits)

lemma uart_take_bound: "uart_take n es = (bs, r) \<Longrightarrow> length bs \<le> n"
  by (induction n es arbitrary: bs r rule: uart_take.induct) (auto split: prod.splits)

lemma uart_read_bytes_shorter:
  "uart_read_bytes n es = Some (k, bs, r) \<Longrightarrow> 0 < n \<Longrightarrow> length r < length es"
proof (cases es)
  case Nil
  assume "uart_read_bytes n es = Some (k, bs, r)"
  with Nil show ?thesis by simp
next
  case (Cons e es')
  assume a: "uart_read_bytes n es = Some (k, bs, r)" and n: "0 < n"
  show ?thesis
  proof (cases e)
    case (Rx b)
    from n obtain m where m: "n = Suc m" by (cases n) auto
    from a Cons Rx m obtain bs' where "uart_take m es' = (bs', r)"
      by (auto split: prod.splits)
    then have "length r + length bs' = length es'" by (rule uart_take_length)
    with Cons show ?thesis by simp
  next
    case RxTimeout
    with a Cons show ?thesis by auto
  next
    case RxError
    with a Cons show ?thesis by auto
  qed
qed

subsection \<open>Resynchronisation: \<^verbatim>\<open>wait_for_intron\<close>\<close>

text \<open>
  The loop of \<^verbatim>\<open>wait_for_intron\<close> with its cursor \<^verbatim>\<open>pos\<close>; \<^verbatim>\<open>sizeof(intron)\<close> is the
  length of the token array. A read that does not return 1 only logs and goes round
  again. The result is the line left behind once the cursor has reached the end of the
  token.
\<close>

function wait_for_intron_loop :: "byte list \<Rightarrow> nat \<Rightarrow> rx_event list \<Rightarrow> rx_event list option" where
  "wait_for_intron_loop tok pos es =
     (if pos < length tok then
        (case uart_read_bytes 1 es of
           None \<Rightarrow> None
         | Some (rd, bs, es') \<Rightarrow>
             if rd = 1 then
               (if hd bs = tok ! pos then wait_for_intron_loop tok (pos + 1) es'
                else wait_for_intron_loop tok 0 es')
             else wait_for_intron_loop tok pos es')
      else Some es)"
  by pat_completeness auto
termination
  by (relation "measure (\<lambda>(tok, pos, es). length es)")
     (auto dest: uart_read_bytes_shorter)

declare wait_for_intron_loop.simps [simp del]

definition wait_for_intron :: "byte list \<Rightarrow> rx_event list \<Rightarrow> rx_event list option" where
  "wait_for_intron tok es = wait_for_intron_loop tok 0 es"

text \<open>The token the firmware starts with: \<^verbatim>\<open>{'U', 'N', 0, 1, 2, 3, 4, 5}\<close>.\<close>

definition default_intron :: "byte list" where
  "default_intron = [0x55, 0x4E, 0, 1, 2, 3, 4, 5]"

text \<open>
  The value of the cursor \<^verbatim>\<open>pos\<close> after the loop body has handled the bytes \<open>cs\<close>,
  starting from \<open>pos\<close>; once the cursor is at the end of the token the loop is over and
  the cursor stays.
\<close>

fun intron_cursor :: "byte list \<Rightarrow> nat \<Rightarrow> byte list \<Rightarrow> nat" where
  "intron_cursor tok pos [] = pos"
| "intron_cursor tok pos (c # cs) =
     (if pos < length tok
      then intron_cursor tok (if c = tok ! pos then pos + 1 else 0) cs
      else pos)"

subsection \<open>Process-wide state and what the firmware does to the outside\<close>

text \<open>
  Calls into the radio driver, the UART transmitter, the allocator and the logger are
  recorded, in program order, in a trace.
\<close>

datatype authmode = WIFI_AUTH_OPEN | WIFI_AUTH_WPA2_PSK

record wifi_sta_config =
  sta_ssid :: "byte list"
  sta_password :: "byte list"
  threshold_authmode :: authmode

datatype effect =
    UartWrite "byte list"
  | Log string
  | ScanStart
  | WifiConnect
  | SetProtocol byte
  | SetInactiveTime nat
  | WifiStop
  | WifiSetConfig wifi_sta_config
  | WifiStart
  | FreeRxBuffer nat
  | Free "byte list"
  | InternalTx "byte list"
  | Restart
  | StartSoftAP byte bool

text \<open>\<^verbatim>\<open>wifi_receive_buff\<close> and \<^verbatim>\<open>wifi_send_buff\<close>; \<^verbatim>\<open>rx_buff\<close> is the driver's handle, a
  pointer, with 0 for \<^verbatim>\<open>NULL\<close>.\<close>

record wifi_receive_buff =
  len_r :: nat
  data_r :: "byte list"
  rx_buff :: nat

record wifi_send_buff =
  len_s :: "32 word"
  data_s :: "byte list"

record nic_state =
  intron :: "byte list"
  mac :: "byte list"
  last_inbound_seen :: "32 word"
  associated :: bool
  beacon_quirk :: bool
  probe_in_progress :: bool
  probe_retry_count :: "8 word"
  s_retry_num :: int
  ap_silent :: bool
  uart_tx_queue :: "wifi_receive_buff list"
  wifi_egress_queue :: "wifi_send_buff list"
  uart_rx :: "rx_event list"
  trace :: "effect list"

text \<open>
  The access-point record of the driver (\<^verbatim>\<open>wifi_ap_record_t\<close>): only the two fields the
  firmware reads, \<^verbatim>\<open>uint8_t bssid[6]\<close> and \<^verbatim>\<open>uint8_t ssid[33]\<close>.
\<close>

record ap_record =
  bssid :: "byte list"
  ssid :: "byte list"

definition wf_ap :: "ap_record \<Rightarrow> bool" where
  "wf_ap r = (length (bssid r) = 6 \<and> length (ssid r) = 33)"

text \<open>
  The answers of the radio driver and of the build configuration, which are not part of
  this file: the record of the associated access point (\<open>None\<close>: the query returns an
  error), the records of the last scan (\<open>None\<close>: fetching them returns an error), the
  station MAC, the protocol bitmap, whether the setters succeed, and
  \<^verbatim>\<open>CONFIG_ESP_MAXIMUM_RETRY\<close>.
\<close>

record wifi_driver =
  sta_ap_info :: "ap_record option"
  scan_ap_records :: "ap_record list option"
  sta_mac :: "byte list option"
  get_protocol :: "byte option"
  set_protocol_ok :: bool
  set_inactive_time_ok :: bool
  set_config_ok :: bool
  wifi_start_ok :: bool
  softap_ok :: bool
  maximum_retry :: int

datatype error = Abort

definition emit :: "effect list \<Rightarrow> nic_state \<Rightarrow> nic_state" where
  "emit fx s = s\<lparr>trace := trace s @ fx\<rparr>"

definition MSG_DEVINFO :: byte where "MSG_DEVINFO = 0"
definition MSG_LINK :: byte where "MSG_LINK = 1"
definition MSG_GET_LINK :: byte where "MSG_GET_LINK = 2"
definition MSG_CLIENTCONFIG :: byte where "MSG_CLIENTCONFIG = 3"
definition MSG_PACKET :: byte where "MSG_PACKET = 4"
definition MSG_INTRON :: byte where "MSG_INTRON = 5"
definition MSG_START_SOFTAP :: byte where "MSG_START_SOFTAP = 6"
definition MSG_ALIVE :: byte where "MSG_ALIVE = 7"

definition INACTIVE_BEACON_SECONDS :: nat where "INACTIVE_BEACON_SECONDS = 3600 * 18"
definition INACTIVE_PACKET_SECONDS :: "32 word" where "INACTIVE_PACKET_SECONDS = 5"
definition probe_max_reties :: "8 word" where "probe_max_reties = 3"
definition uart_nic_protocol :: byte where "uart_nic_protocol = 1 OR 2 OR 4"
definition QUEUE_LENGTH :: nat where "QUEUE_LENGTH = 20"

text \<open>The three writes of one LinkStatus frame: token, type byte, \<^verbatim>\<open>up\<close>.\<close>

definition link_status_frame :: "byte list \<Rightarrow> byte \<Rightarrow> effect list" where
  "link_status_frame tok up = [UartWrite tok, UartWrite [MSG_LINK], UartWrite [up]]"

definition send_link_status :: "byte \<Rightarrow> nic_state \<Rightarrow> nic_state" where
  "send_link_status up s =
     emit (Log ''Sending link status'' # link_status_frame (intron s) up) s"

definition send_alive :: "byte \<Rightarrow> nic_state \<Rightarrow> nic_state" where
  "send_alive code s = emit [UartWrite (intron s), UartWrite [MSG_ALIVE, code]] s"

text \<open>
  \<^verbatim>\<open>probe_run\<close> creates the task that issues one full active scan
  (\<^verbatim>\<open>esp_wifi_scan_start\<close>) and deletes itself.
\<close>

definition probe_run :: "nic_state \<Rightarrow> nic_state" where
  "probe_run s = emit [ScanStart] s"

subsection \<open>Link health: \<^verbatim>\<open>check_online_status\<close>\<close>

text \<open>\<open>now\<close> is the value \<^verbatim>\<open>now_seconds()\<close> returns at the call.\<close>

definition check_online_status :: "32 word \<Rightarrow> nic_state \<Rightarrow> nic_state" where
  "check_online_status now s =
     (if \<not> associated s \<or> probe_in_progress s then s
      else
        let last = last_inbound_seen s;
            elapsed = (if now \<ge> last then now - last else now)
        in if elapsed > INACTIVE_PACKET_SECONDS
           then probe_run (s\<lparr>probe_in_progress := True, probe_retry_count := 0\<rparr>)
           else s)"

subsection \<open>The radio event handler\<close>

datatype wifi_event =
    WIFI_EVENT_STA_START
  | WIFI_EVENT_STA_DISCONNECTED
  | WIFI_EVENT_STA_CONNECTED
  | WIFI_EVENT_SCAN_DONE "32 word" "16 word"
  | WIFI_EVENT_OTHER

text \<open>\<^verbatim>\<open>0 == memcmp(a, b, 6)\<close>.\<close>

definition memcmp6_eq :: "byte list \<Rightarrow> byte list \<Rightarrow> bool" where
  "memcmp6_eq a b = (take 6 a = take 6 b)"

text \<open>
  \<^verbatim>\<open>0 == strncmp(a, b, n)\<close>: byte by byte, at most \<open>n\<close> bytes, and over at the first
  NUL. The end of a list reads as NUL; the 33-byte fields are never read that far with
  \<open>n = 32\<close>.
\<close>

fun strncmp_eq :: "byte list \<Rightarrow> byte list \<Rightarrow> nat \<Rightarrow> bool" where
  "strncmp_eq a b 0 = True"
| "strncmp_eq (x # xs) (y # ys) (Suc n) = (x = y \<and> (x = 0 \<or> strncmp_eq xs ys n))"
| "strncmp_eq [] (y # ys) (Suc n) = (y = 0)"
| "strncmp_eq (x # xs) [] (Suc n) = (x = 0)"
| "strncmp_eq [] [] (Suc n) = True"

text \<open>First loop of the scan-done branch: is there a record with the same BSSID?\<close>

fun bssid_pass :: "ap_record \<Rightarrow> ap_record list \<Rightarrow> bool" where
  "bssid_pass ap_info [] = False"
| "bssid_pass ap_info (r # rs) =
     (if memcmp6_eq (bssid ap_info) (bssid r) then True else bssid_pass ap_info rs)"

text \<open>
  Second loop: both SSIDs start with a non-zero byte and \<^verbatim>\<open>strncmp\<close> over 32 bytes
  gives 0. (The two array addresses in the source's condition are never null.)
\<close>

definition first_byte :: "byte list \<Rightarrow> byte" where
  "first_byte xs = (case xs of [] \<Rightarrow> 0 | x # _ \<Rightarrow> x)"

fun ssid_pass :: "ap_record \<Rightarrow> ap_record list \<Rightarrow> bool" where
  "ssid_pass ap_info [] = False"
| "ssid_pass ap_info (r # rs) =
     (if first_byte (ssid ap_info) \<noteq> 0 \<and> first_byte (ssid r) \<noteq> 0
         \<and> strncmp_eq (ssid ap_info) (ssid r) 32
      then True else ssid_pass ap_info rs)"

text \<open>
  The end of the scan-done branch. \<^verbatim>\<open>probe_retry_count++ < probe_max_reties\<close> compares
  the value before the increment, and the counter is an \<^verbatim>\<open>uint8_t\<close>.
\<close>

definition scan_done_result :: "bool \<Rightarrow> 32 word \<Rightarrow> nic_state \<Rightarrow> nic_state" where
  "scan_done_result found now s =
     (if \<not> found then
        (let old = probe_retry_count s;
             s1 = s\<lparr>probe_retry_count := old + 1\<rparr>
         in if old < probe_max_reties then probe_run s1
            else (send_link_status 0 s1)\<lparr>probe_in_progress := False\<rparr>)
      else s\<lparr>probe_in_progress := False, last_inbound_seen := now\<rparr>)"

text \<open>
  \<^verbatim>\<open>event_handler\<close> for events of base \<^verbatim>\<open>WIFI_EVENT\<close>. \<^verbatim>\<open>ESP_ERROR_CHECK\<close> aborts the
  firmware on an error code: the result \<open>Inl Abort\<close>. In the scan-done branch the driver
  fills at most \<^verbatim>\<open>ap_count\<close> records and writes back how many it filled.
\<close>

definition event_handler :: "wifi_driver \<Rightarrow> 32 word \<Rightarrow> wifi_event \<Rightarrow> nic_state \<Rightarrow> error + nic_state" where
  "event_handler drv now ev s =
     (case ev of
        WIFI_EVENT_STA_START \<Rightarrow>
          (case get_protocol drv of
             None \<Rightarrow> Inl Abort
           | Some current_protocol \<Rightarrow>
               if current_protocol \<noteq> uart_nic_protocol then
                 (if set_protocol_ok drv then Inr (emit [SetProtocol uart_nic_protocol] s)
                  else Inl Abort)
               else Inr (emit [WifiConnect] s))
      | WIFI_EVENT_STA_DISCONNECTED \<Rightarrow>
          (let s1 = send_link_status 0 (s\<lparr>associated := False\<rparr>);
               s2 = (if s_retry_num s1 < maximum_retry drv
                     then emit [WifiConnect, Log ''retry to connect to the AP'']
                            (s1\<lparr>s_retry_num := s_retry_num s1 + 1\<rparr>)
                     else s1)
           in Inr (emit [Log ''connect to the AP fail''] s2))
      | WIFI_EVENT_STA_CONNECTED \<Rightarrow>
          (let s1 = send_link_status 1
                      (s\<lparr>last_inbound_seen := now, associated := True, beacon_quirk := True\<rparr>);
               s2 = s1\<lparr>s_retry_num := 0\<rparr>
           in if set_inactive_time_ok drv
              then Inr (emit [SetInactiveTime INACTIVE_BEACON_SECONDS] s2)
              else Inl Abort)
      | WIFI_EVENT_SCAN_DONE status number \<Rightarrow>
          (case sta_ap_info drv of
             None \<Rightarrow> Inl Abort
           | Some ap_info \<Rightarrow>
               if status = 0 \<and> number \<noteq> 0 then
                 (case scan_ap_records drv of
                    None \<Rightarrow> Inl Abort
                  | Some recs \<Rightarrow>
                      (let aps = take (unat number) recs;
                           found1 = bssid_pass ap_info aps;
                           s1 = (if found1 then s\<lparr>beacon_quirk := False\<rparr> else s);
                           found = (if beacon_quirk s1 \<and> \<not> found1
                                    then ssid_pass ap_info aps else found1)
                       in Inr (scan_done_result found now s1)))
               else Inr (scan_done_result False now s))
      | WIFI_EVENT_OTHER \<Rightarrow> Inr s)"

subsection \<open>The radio receive callback\<close>

text \<open>
  \<^verbatim>\<open>xQueueSendToBack\<close> with a zero wait on a queue of 20 slots fails exactly when the
  queue is full.
\<close>

definition queue_full :: "'a list \<Rightarrow> bool" where
  "queue_full q = (QUEUE_LENGTH \<le> length q)"

text \<open>
  \<^verbatim>\<open>free_wifi_receive_buff\<close>: the driver's handle is released only when it is not
  \<^verbatim>\<open>NULL\<close>, then the data (a pointer the callback has already read through, so not
  \<^verbatim>\<open>NULL\<close>) and the entry itself.
\<close>

definition free_wifi_receive_buff :: "wifi_receive_buff \<Rightarrow> nic_state \<Rightarrow> nic_state" where
  "free_wifi_receive_buff buff s =
     emit ((if rx_buff buff \<noteq> 0 then [FreeRxBuffer (rx_buff buff)] else []) @ [Free (data_r buff)]) s"

text \<open>
  \<^verbatim>\<open>wifi_receive_cb(buffer, len, eb)\<close>; \<open>malloc_ok\<close> says whether the allocation of the
  queue entry succeeds. Label \<^verbatim>\<open>cleanup\<close> releases the driver's handle, whatever it is,
  and the data; an entry the queue refused goes to \<^verbatim>\<open>free_wifi_receive_buff\<close>. The frame
  is read through a \<^verbatim>\<open>char\<close> pointer; \<^verbatim>\<open>char\<close> is unsigned on the target, so a frame
  byte and a MAC byte compare as bytes.
\<close>

definition rx_cleanup :: "byte list \<Rightarrow> nat \<Rightarrow> nic_state \<Rightarrow> nic_state" where
  "rx_cleanup buffer eb s = emit [FreeRxBuffer eb, Free buffer] s"

definition mac_mismatch :: "byte list \<Rightarrow> byte list \<Rightarrow> bool" where
  "mac_mismatch buffer m = list_ex (\<lambda>i. buffer ! i \<noteq> m ! i) [0..<6]"

definition wifi_receive_cb ::
  "bool \<Rightarrow> 32 word \<Rightarrow> byte list \<Rightarrow> 16 word \<Rightarrow> nat \<Rightarrow> nic_state \<Rightarrow> nic_state" where
  "wifi_receive_cb malloc_ok now buffer len eb s =
     (let s1 = s\<lparr>last_inbound_seen := now\<rparr>
      in if (buffer ! 5) AND 0x01 = 0 \<and> mac_mismatch buffer (mac s1) then rx_cleanup buffer eb s1
         else if \<not> malloc_ok then rx_cleanup buffer eb s1
         else
           (let buff = \<lparr>len_r = unat len, data_r = buffer, rx_buff = eb\<rparr>
            in if \<not> queue_full (uart_tx_queue s1)
               then s1\<lparr>uart_tx_queue := uart_tx_queue s1 @ [buff]\<rparr>
               else free_wifi_receive_buff buff s1))"

subsection \<open>Reading from the UART: \<^verbatim>\<open>read_uart\<close>\<close>

text \<open>
  The loop of \<^verbatim>\<open>read_uart(buff, len)\<close>: \<open>trr\<close> counts the bytes read so far and \<open>got\<close>
  holds them. A negative read ends the loop early with what was read. The result is
  the count, the bytes stored at the start of \<^verbatim>\<open>buff\<close>, and the rest of the line. (The
  two log lines of the early return are not recorded.)
\<close>

function read_uart_loop ::
  "nat \<Rightarrow> nat \<Rightarrow> byte list \<Rightarrow> rx_event list \<Rightarrow> (nat \<times> byte list \<times> rx_event list) option" where
  "read_uart_loop trr len got es =
     (if trr < len then
        (case uart_read_bytes (len - trr) es of
           None \<Rightarrow> None
         | Some (rd, bs, es') \<Rightarrow>
             if rd < 0 then Some (trr, got, es')
             else read_uart_loop (trr + nat rd) len (got @ bs) es')
      else Some (trr, got, es))"
  by pat_completeness auto
termination
  by (relation "measure (\<lambda>(trr, len, got, es). length es)")
     (auto dest: uart_read_bytes_shorter)

declare read_uart_loop.simps [simp del]

definition read_uart :: "nat \<Rightarrow> rx_event list \<Rightarrow> (nat \<times> byte list \<times> rx_event list) option" where
  "read_uart len es = read_uart_loop 0 len [] es"

text \<open>What a buffer holding \<open>old\<close> holds after \<open>got\<close> was stored at its start.\<close>

definition stored :: "byte list \<Rightarrow> byte list \<Rightarrow> byte list" where
  "stored got old = got @ drop (length got) old"

text \<open>The 32-bit value of four bytes in memory; the target is little-endian.\<close>

definition le32 :: "byte list \<Rightarrow> 32 word" where
  "le32 bs = ucast (bs ! 0) OR push_bit 8 (ucast (bs ! 1))
             OR push_bit 16 (ucast (bs ! 2)) OR push_bit 24 (ucast (bs ! 3))"

text \<open>The data bytes among the events of a line.\<close>

fun rx_data :: "rx_event list \<Rightarrow> byte list" where
  "rx_data [] = []"
| "rx_data (Rx b # es) = b # rx_data es"
| "rx_data (e # es) = rx_data es"

text \<open>
  The line once \<open>n\<close> data bytes have been taken off it: the time-outs in front of each
  of them go as well, whatever follows the last of them stays.
\<close>

fun after_data :: "nat \<Rightarrow> rx_event list \<Rightarrow> rx_event list" where
  "after_data 0 es = es"
| "after_data (Suc n) [] = []"
| "after_data (Suc n) (Rx b # es) = after_data n es"
| "after_data (Suc n) (e # es) = after_data (Suc n) es"

subsection \<open>Packet messages: \<^verbatim>\<open>read_packet_message\<close>\<close>

text \<open>The loop at label \<^verbatim>\<open>nomem\<close>: \<open>n\<close> times \<^verbatim>\<open>read_uart(&c, 1)\<close>.\<close>

fun nomem_drain :: "nat \<Rightarrow> rx_event list \<Rightarrow> rx_event list option" where
  "nomem_drain 0 es = Some es"
| "nomem_drain (Suc n) es =
     (case read_uart 1 es of None \<Rightarrow> None | Some (k, bs, es') \<Rightarrow> nomem_drain n es')"

definition nomem :: "32 word \<Rightarrow> nic_state \<Rightarrow> nic_state option" where
  "nomem sz s =
     (case nomem_drain (unat sz) (uart_rx s) of
        None \<Rightarrow> None
      | Some es \<Rightarrow> Some (emit [Log ''Out of mem for packet data''] (s\<lparr>uart_rx := es\<rparr>)))"

text \<open>
  \<^verbatim>\<open>free_wifi_send_buff\<close> frees the data when it is not \<^verbatim>\<open>NULL\<close>, as it is once its
  allocation has succeeded, and then the entry.
\<close>

definition free_wifi_send_buff :: "wifi_send_buff \<Rightarrow> nic_state \<Rightarrow> nic_state" where
  "free_wifi_send_buff buff s = emit [Free (data_s buff)] s"

text \<open>
  \<open>malloc_buff\<close> and \<open>malloc_data\<close> say whether the two allocations succeed. \<open>None\<close>: the
  function never returns, because the line ends before the bytes it waits for. The
  payload storage is not initialised, so \<open>data_s\<close> is just the bytes read into it.
\<close>

definition read_packet_message :: "bool \<Rightarrow> bool \<Rightarrow> nic_state \<Rightarrow> nic_state option" where
  "read_packet_message malloc_buff malloc_data s =
     (case read_uart 4 (uart_rx s) of
        None \<Rightarrow> None
      | Some (k, hdr, es) \<Rightarrow>
          (let sz = le32 (stored hdr [0, 0, 0, 0]);
               s1 = s\<lparr>uart_rx := es\<rparr>
           in if sz > 2000 then Some (emit [Log ''Invalid packet size''] s1)
              else if \<not> malloc_buff then nomem sz s1
              else if \<not> malloc_data then nomem sz s1
              else
                (case read_uart (unat sz) (uart_rx s1) of
                   None \<Rightarrow> None
                 | Some (k', payload, es') \<Rightarrow>
                     (let buff = \<lparr>len_s = sz, data_s = payload\<rparr>;
                          s2 = s1\<lparr>uart_rx := es'\<rparr>
                      in if \<not> queue_full (wifi_egress_queue s2)
                         then Some (s2\<lparr>wifi_egress_queue := wifi_egress_queue s2 @ [buff]\<rparr>)
                         else Some (free_wifi_send_buff buff
                                      (emit [Log ''Out of space in egress queue''] s2))))))"

subsection \<open>Control messages\<close>

definition FW_VERSION :: "16 word" where "FW_VERSION = 8"

text \<open>
  \<^verbatim>\<open>send_device_info\<close>: token, type byte, firmware version (two bytes, low byte first),
  then the station MAC as the driver gives it, or the last one when the driver fails.
\<close>

definition send_device_info :: "wifi_driver \<Rightarrow> nic_state \<Rightarrow> nic_state" where
  "send_device_info drv s =
     (let s1 = emit [Log ''Sending device info'', UartWrite (intron s), UartWrite [MSG_DEVINFO],
                     UartWrite [ucast FW_VERSION, ucast (drop_bit 8 FW_VERSION)]] s;
          s2 = (case sta_mac drv of
                  None \<Rightarrow> emit [Log ''Failed to obtain MAC, returning last one or zeroes''] s1
                | Some m \<Rightarrow> s1\<lparr>mac := m\<rparr>)
      in emit [UartWrite (mac s2)] s2)"

text \<open>
  Sizes of the credential fields of the driver's station configuration
  (\<^verbatim>\<open>uint8_t ssid[32]\<close>, \<^verbatim>\<open>uint8_t password[64]\<close>).
\<close>

definition SSID_SIZE :: nat where "SSID_SIZE = 32"
definition PASSWORD_SIZE :: nat where "PASSWORD_SIZE = 64"

text \<open>\<^verbatim>\<open>strlen\<close> of a byte array: the number of bytes before the first NUL.\<close>

definition strlen :: "byte list \<Rightarrow> nat" where
  "strlen xs = length (takeWhile (\<lambda>b. b \<noteq> 0) xs)"

text \<open>
  \<^verbatim>\<open>read_wifi_client_message\<close>. The configuration starts zeroed (authentication
  threshold \<^verbatim>\<open>WIFI_AUTH_OPEN\<close>); a length byte that is not read stays 0. The outer
  \<open>None\<close> is a read that never returns.
\<close>

definition clamp_len :: "byte \<Rightarrow> nat \<Rightarrow> nat" where
  "clamp_len n limit = (if unat n > limit then limit else unat n)"

definition read_wifi_client_message :: "wifi_driver \<Rightarrow> nic_state \<Rightarrow> (error + nic_state) option" where
  "read_wifi_client_message drv s =
     (case read_uart 1 (uart_rx s) of
        None \<Rightarrow> None
      | Some (k1, b1, es1) \<Rightarrow>
     (let ssid_len0 = first_byte (stored b1 [0]);
          t1 = Log ''Reading SSID len''
               # (if unat ssid_len0 > SSID_SIZE then [Log ''SSID too long, trimming''] else []);
          ssid_len = clamp_len ssid_len0 SSID_SIZE
      in case read_uart ssid_len es1 of
        None \<Rightarrow> None
      | Some (k2, b2, es2) \<Rightarrow>
     (case read_uart 1 es2 of
        None \<Rightarrow> None
      | Some (k3, b3, es3) \<Rightarrow>
     (let pass_len0 = first_byte (stored b3 [0]);
          t2 = Log ''Reading PASS len''
               # (if unat pass_len0 > PASSWORD_SIZE then [Log ''PASS too long, trimming''] else []);
          pass_len = clamp_len pass_len0 PASSWORD_SIZE
      in case read_uart pass_len es3 of
        None \<Rightarrow> None
      | Some (k4, b4, es4) \<Rightarrow>
     (let password = stored b4 (replicate PASSWORD_SIZE 0);
          cfg = \<lparr>sta_ssid = stored b2 (replicate SSID_SIZE 0),
                 sta_password = password,
                 threshold_authmode =
                   (if strlen password \<noteq> 0 then WIFI_AUTH_WPA2_PSK else WIFI_AUTH_OPEN)\<rparr>;
          s1 = emit (t1 @ t2 @ [Log ''Reconfiguring wifi'', WifiStop]) (s\<lparr>uart_rx := es4\<rparr>)
      in if \<not> set_config_ok drv then Some (Inl Abort)
         else if \<not> wifi_start_ok drv then Some (Inl Abort)
         else Some (Inr (send_device_info drv (emit [WifiSetConfig cfg, WifiStart] s1))))))))"

text \<open>
  \<^verbatim>\<open>get_link_status\<close>: the association query's answer is not looked at, only whether it
  is an error.
\<close>

definition get_link_status :: "wifi_driver \<Rightarrow> nic_state \<Rightarrow> bool \<times> nic_state" where
  "get_link_status drv s =
     (let online = (sta_ap_info drv \<noteq> None)
      in (online, s\<lparr>associated := online\<rparr>))"

definition read_intron_message :: "nic_state \<Rightarrow> nic_state option" where
  "read_intron_message s =
     (case read_uart (length (intron s)) (uart_rx s) of
        None \<Rightarrow> None
      | Some (k, bs, es) \<Rightarrow> Some (s\<lparr>intron := stored bs (intron s), uart_rx := es\<rparr>))"

text \<open>
  \<^verbatim>\<open>start_softap\<close> and \<^verbatim>\<open>read_softap_message\<close>, with the bring-up of the access point as
  one step that aborts when any of its checked driver calls fails. A channel byte that
  is not read is not initialised in the source; it reads as 0 here.
\<close>

definition start_softap :: "wifi_driver \<Rightarrow> byte \<Rightarrow> nic_state \<Rightarrow> error + nic_state" where
  "start_softap drv channel s =
     (let s1 = s\<lparr>s_retry_num := maximum_retry drv\<rparr>;
          silent = (channel > 100);
          ch = (if silent then channel - 100 else channel);
          s2 = send_alive 10 (s1\<lparr>ap_silent := silent\<rparr>)
      in if softap_ok drv then Inr (send_alive 20 (emit [StartSoftAP ch silent] s2))
         else Inl Abort)"

definition read_softap_message :: "wifi_driver \<Rightarrow> nic_state \<Rightarrow> (error + nic_state) option" where
  "read_softap_message drv s =
     (case read_uart 1 (uart_rx s) of
        None \<Rightarrow> None
      | Some (k, bs, es) \<Rightarrow>
          (let channel = first_byte (stored bs [0]);
               s1 = s\<lparr>uart_rx := es\<rparr>
           in if channel = 255 then Some (Inr (emit [Restart] s1))
              else Some (start_softap drv channel s1)))"

subsection \<open>One round of the read loop: \<^verbatim>\<open>read_message\<close>\<close>

definition lift_ok :: "nic_state option \<Rightarrow> (error + nic_state) option" where
  "lift_ok r = map_option Inr r"

definition dispatch ::
  "wifi_driver \<Rightarrow> bool \<Rightarrow> bool \<Rightarrow> byte \<Rightarrow> nic_state \<Rightarrow> (error + nic_state) option" where
  "dispatch drv malloc_buff malloc_data type s =
     (if type = MSG_PACKET then lift_ok (read_packet_message malloc_buff malloc_data s)
      else if type = MSG_CLIENTCONFIG then read_wifi_client_message drv s
      else if type = MSG_GET_LINK then
        (case get_link_status drv s of
           (online, s1) \<Rightarrow> Some (Inr (send_link_status (if online then 1 else 0) s1)))
      else if type = MSG_INTRON then lift_ok (read_intron_message s)
      else if type = MSG_START_SOFTAP then read_softap_message drv (send_alive 99 s)
      else Some (Inr (emit [Log ''Unknown message type''] s)))"

definition read_message ::
  "wifi_driver \<Rightarrow> bool \<Rightarrow> bool \<Rightarrow> 32 word \<Rightarrow> nic_state \<Rightarrow> (error + nic_state) option" where
  "read_message drv malloc_buff malloc_data now s =
     (case wait_for_intron (intron s) (uart_rx s) of
        None \<Rightarrow> None
      | Some es \<Rightarrow>
          (let s1 = check_online_status now (s\<lparr>uart_rx := es\<rparr>)
           in case uart_read_bytes 1 (uart_rx s1) of
                None \<Rightarrow> None
              | Some (rd, bs, es') \<Rightarrow>
                  if rd \<noteq> 1
                  then Some (Inr (emit [Log ''Cannot read message type''] (s1\<lparr>uart_rx := es'\<rparr>)))
                  else dispatch drv malloc_buff malloc_data (first_byte bs) (s1\<lparr>uart_rx := es'\<rparr>)))"

section \<open>Notions used to state the properties\<close>

text \<open>The globals as the firmware initialises them, with the default token.\<close>

definition init_state :: nic_state where
  "init_state =
     \<lparr>intron = default_intron, mac = replicate 6 0, last_inbound_seen = 0, associated = False,
      beacon_quirk = False, probe_in_progress = False, probe_retry_count = 0, s_retry_num = 0,
      ap_silent = False, uart_tx_queue = [], wifi_egress_queue = [], uart_rx = [], trace = []\<rparr>"

text \<open>
  Elapsed time as the specification words it, on the clock readings as numbers: the
  difference, or the reading itself when the clock reads less than the last sighting.
\<close>

definition spec_elapsed :: "32 word \<Rightarrow> 32 word \<Rightarrow> nat" where
  "spec_elapsed now seen = (if unat now < unat seen then unat now else unat now - unat seen)"

text \<open>The handler run on a sequence of events, each with the clock reading at its time.\<close>

fun run_events :: "wifi_driver \<Rightarrow> (32 word \<times> wifi_event) list \<Rightarrow> nic_state \<Rightarrow> error + nic_state" where
  "run_events drv [] s = Inr s"
| "run_events drv ((now, ev) # evs) s =
     (case event_handler drv now ev s of Inl e \<Rightarrow> Inl e | Inr s' \<Rightarrow> run_events drv evs s')"

text \<open>
  A scan-done event that does not confirm the access point: the scan failed, or found
  nothing, or neither loop finds a record (the second loop only counts while
  \<open>beacon_quirk\<close> is set).
\<close>

definition non_matching :: "wifi_driver \<Rightarrow> wifi_event \<Rightarrow> nic_state \<Rightarrow> bool" where
  "non_matching drv ev s =
     (case ev of
        WIFI_EVENT_SCAN_DONE status number \<Rightarrow>
          (case sta_ap_info drv of
             None \<Rightarrow> False
           | Some ap_info \<Rightarrow>
               status \<noteq> 0 \<or> number = 0 \<or>
               (case scan_ap_records drv of
                  None \<Rightarrow> False
                | Some recs \<Rightarrow>
                    \<not> bssid_pass ap_info (take (unat number) recs) \<and>
                    \<not> (beacon_quirk s \<and> ssid_pass ap_info (take (unat number) recs))))
      | _ \<Rightarrow> False)"

text \<open>The string a field of \<open>n\<close> bytes holds: its bytes before the first NUL.\<close>

definition cstr :: "nat \<Rightarrow> byte list \<Rightarrow> byte list" where
  "cstr n xs = takeWhile (\<lambda>b. b \<noteq> 0) (take n xs)"

text \<open>
  IEEE 802: a destination address is a group (multicast or broadcast) address when the
  least significant bit of its first octet is set.
\<close>

definition group_address :: "byte list \<Rightarrow> bool" where
  "group_address frame = ((frame ! 0) AND 0x01 = 1)"

text \<open>The log lines of \<^verbatim>\<open>read_wifi_client_message\<close> for two declared lengths.\<close>

definition config_logs :: "byte \<Rightarrow> byte \<Rightarrow> effect list" where
  "config_logs ssid_len pass_len =
     Log ''Reading SSID len''
     # (if unat ssid_len > SSID_SIZE then [Log ''SSID too long, trimming''] else [])
     @ Log ''Reading PASS len''
     # (if unat pass_len > PASSWORD_SIZE then [Log ''PASS too long, trimming''] else [])
     @ [Log ''Reconfiguring wifi'']"

subsection \<open>Concrete data for the examples\<close>

definition ap_home :: ap_record where
  "ap_home = \<lparr>bssid = [0x10, 0x20, 0x30, 0x40, 0x50, 0x60],
              ssid = [0x68, 0x6F, 0x6D, 0x65] @ replicate 29 0\<rparr>"

definition drv_ok :: wifi_driver where
  "drv_ok = \<lparr>sta_ap_info = Some ap_home, scan_ap_records = Some [],
             sta_mac = Some [0x02, 0, 0, 0, 0, 0x10], get_protocol = Some 7,
             set_protocol_ok = True, set_inactive_time_ok = True, set_config_ok = True,
             wifi_start_ok = True, softap_ok = True, maximum_retry = 5\<rparr>"

text \<open>Associated, a probe just started by the periodic check at second 16.\<close>

definition probing_state :: nic_state where
  "probing_state = init_state\<lparr>associated := True, last_inbound_seen := 10,
                                probe_in_progress := True, trace := [ScanStart]\<rparr>"

text \<open>A scan that completed without results.\<close>

definition scan_empty :: wifi_event where
  "scan_empty = WIFI_EVENT_SCAN_DONE 0 0"

text \<open>The same probe after three scans without a match; the token and a GetLinkStatus
  byte wait on the line.\<close>

definition exhausted_state :: nic_state where
  "exhausted_state = probing_state\<lparr>probe_retry_count := 3,
                        uart_rx := map Rx (default_intron @ [MSG_GET_LINK]),
                        trace := [ScanStart, ScanStart, ScanStart, ScanStart]\<rparr>"

definition station_state :: nic_state where
  "station_state = init_state\<lparr>mac := [0x02, 0, 0, 0, 0, 0x10]\<rparr>"

text \<open>An IPv6 all-routers multicast frame, and a unicast frame for another station.\<close>

definition mcast_frame :: "byte list" where
  "mcast_frame = [0x33, 0x33, 0, 0, 0, 0x02,  0x02, 0, 0, 0, 0, 0x77,  0x86, 0xDD]"

definition foreign_frame :: "byte list" where
  "foreign_frame = [0x02, 0, 0, 0, 0, 0x11,  0x02, 0, 0, 0, 0, 0x77,  0x08, 0x00]"

text \<open>A Packet body of declared length 3 with time-outs on the line, then one more byte.\<close>

definition nomem_line :: "rx_event list" where
  "nomem_line = [Rx 3, Rx 0, RxTimeout, Rx 0, Rx 0, Rx 0x61, RxTimeout, Rx 0x62, Rx 0x63,
                 Rx 0x55, RxTimeout]"

text \<open>The associated access point \<open>net\<close> and three scan records.\<close>

definition ap_net :: ap_record where
  "ap_net = \<lparr>bssid = [0x10, 0x20, 0x30, 0x40, 0x50, 0x60],
             ssid = [0x6E, 0x65, 0x74] @ replicate 30 0\<rparr>"

definition rec_same_bssid :: ap_record where
  "rec_same_bssid = \<lparr>bssid = [0x10, 0x20, 0x30, 0x40, 0x50, 0x60], ssid = replicate 33 0\<rparr>"

definition rec_same_name :: ap_record where
  "rec_same_name = \<lparr>bssid = [0x10, 0x20, 0x30, 0x40, 0x50, 0x61],
                    ssid = [0x6E, 0x65, 0x74] @ replicate 30 0\<rparr>"

definition rec_other_tail :: ap_record where
  "rec_other_tail = \<lparr>bssid = [0x10, 0x20, 0x30, 0x40, 0x50, 0x61],
                     ssid = [0x6E, 0x65, 0x74, 0, 0x58] @ replicate 28 0\<rparr>"

definition drv_scan :: "ap_record list \<Rightarrow> wifi_driver" where
  "drv_scan recs = drv_ok\<lparr>sta_ap_info := Some ap_net, scan_ap_records := Some recs\<rparr>"

definition quirk_state :: nic_state where
  "quirk_state = probing_state\<lparr>beacon_quirk := True\<rparr>"

text \<open>ClientConfig bodies: SSID \<open>hi\<close> with password \<open>pwd\<close>; with a password of 65
  bytes; a declared SSID of 33 bytes, the last of them NUL, with an empty password; and
  SSID \<open>hi\<close> with a password of declared length 3 whose first byte is NUL.\<close>

definition config_line :: "rx_event list" where
  "config_line = map Rx [2, 0x68, 0x69, 3, 0x70, 0x77, 0x64]"

definition overlong_pass_line :: "rx_event list" where
  "overlong_pass_line = map Rx ([2, 0x68, 0x69, 65] @ replicate 65 0x70)"

definition overlong_ssid_line :: "rx_event list" where
  "overlong_ssid_line = map Rx (33 # replicate 32 0x61 @ [0, 0])"

definition nul_password_line :: "rx_event list" where
  "nul_password_line = map Rx [2, 0x68, 0x69, 3, 0, 0x77, 0x64]"

section \<open>Properties\<close>

subsection \<open>The scanner\<close>

lemma wfi_done: "length tok \<le> pos \<Longrightarrow> wait_for_intron_loop tok pos es = Some es"
  by (simp add: wait_for_intron_loop.simps)

lemma wfi_byte:
  "pos < length tok \<Longrightarrow>
   wait_for_intron_loop tok pos (Rx c # es) =
   wait_for_intron_loop tok (if c = tok ! pos then pos + 1 else 0) es"
  by (subst wait_for_intron_loop.simps) simp

lemma wfi_prefix:
  "intron_cursor tok pos pre < length tok \<Longrightarrow>
   wait_for_intron_loop tok pos (map Rx pre @ es) =
   wait_for_intron_loop tok (intron_cursor tok pos pre) es"
proof (induction pre arbitrary: pos)
  case Nil
  then show ?case by simp
next
  case (Cons c cs)
  show ?case
  proof (cases "pos < length tok")
    case True
    with Cons.prems have "intron_cursor tok (if c = tok ! pos then pos + 1 else 0) cs < length tok"
      by simp
    from Cons.IH [OF this] True show ?thesis by (simp add: wfi_byte)
  next
    case False
    with Cons.prems show ?thesis by simp
  qed
qed

lemma wfi_token:
  "pos \<le> length tok \<Longrightarrow>
   wait_for_intron_loop tok pos (map Rx (drop pos tok) @ es) = Some es"
proof (induction "length tok - pos" arbitrary: pos)
  case 0
  then show ?case by (simp add: wfi_done)
next
  case (Suc k)
  then have lt: "pos < length tok" by simp
  then have d: "drop pos tok = tok ! pos # drop (Suc pos) tok"
    by (simp add: Cons_nth_drop_Suc)
  from Suc have "wait_for_intron_loop tok (Suc pos) (map Rx (drop (Suc pos) tok) @ es) = Some es"
    by simp
  with lt d show ?case by (simp add: wfi_byte)
qed

lemma wfi_sound:
  "wait_for_intron_loop tok pos (map Rx bs) = Some rest \<Longrightarrow> pos \<le> length tok \<Longrightarrow>
   \<exists>pre used. take pos tok @ used = pre @ tok \<and> map Rx used @ rest = map Rx bs"
proof (induction bs arbitrary: pos)
  case Nil
  show ?case
  proof (cases "pos < length tok")
    case True
    with Nil show ?thesis by (simp add: wait_for_intron_loop.simps)
  next
    case False
    with Nil have "rest = []" "pos = length tok" by (simp_all add: wfi_done)
    then show ?thesis by simp
  qed
next
  case (Cons c cs)
  show ?case
  proof (cases "pos < length tok")
    case False
    with Cons.prems have "rest = map Rx (c # cs)" "pos = length tok" by (simp_all add: wfi_done)
    then show ?thesis by auto
  next
    case True
    show ?thesis
    proof (cases "c = tok ! pos")
      case True
      with \<open>pos < length tok\<close> Cons.prems
      have "wait_for_intron_loop tok (Suc pos) (map Rx cs) = Some rest"
        by (simp add: wfi_byte)
      from Cons.IH [OF this] \<open>pos < length tok\<close>
      obtain pre used where u: "take (Suc pos) tok @ used = pre @ tok" "map Rx used @ rest = map Rx cs"
        by auto
      from \<open>pos < length tok\<close> True have "take (Suc pos) tok = take pos tok @ [c]"
        by (simp add: take_Suc_conv_app_nth)
      with u have "take pos tok @ (c # used) = pre @ tok \<and> map Rx (c # used) @ rest = map Rx (c # cs)"
        by simp
      then show ?thesis by blast
    next
      case False
      with \<open>pos < length tok\<close> Cons.prems
      have "wait_for_intron_loop tok 0 (map Rx cs) = Some rest"
        by (simp add: wfi_byte)
      from Cons.IH [OF this]
      obtain pre used where u: "used = pre @ tok" "map Rx used @ rest = map Rx cs"
        by auto
      then have "take pos tok @ (c # used) = (take pos tok @ c # pre) @ tok
                 \<and> map Rx (c # used) @ rest = map Rx (c # cs)"
        by simp
      then show ?thesis by blast
    qed
  qed
qed

lemma intron_cursor_fresh:
  "tok \<noteq> [] \<Longrightarrow> hd tok \<notin> set pre \<Longrightarrow> intron_cursor tok 0 pre = 0"
  by (induction pre) (auto simp: hd_conv_nth)

text \<open>
  Claim C2, as amended. The scanner reads every byte once and keeps only its cursor.
  If the cursor stands at 0 when an occurrence of the token begins, and in particular
  if none of the bytes before it equals the first byte of the token, the scanner returns
  exactly at the end of that occurrence, with the rest of the line untouched. And
  whenever the scanner returns, the bytes it consumed end with the token. It does not
  in general stop at the first occurrence: a byte that breaks a partial match is
  dropped, not tried against the start of the token.
\<close>

theorem wait_for_intron_resync:
  "(tok \<noteq> [] \<and> intron_cursor tok 0 pre = 0 \<longrightarrow>
      wait_for_intron tok (map Rx (pre @ tok) @ rest) = Some rest) \<and>
   (tok \<noteq> [] \<and> hd tok \<notin> set pre \<longrightarrow>
      wait_for_intron tok (map Rx (pre @ tok) @ rest) = Some rest) \<and>
   (wait_for_intron tok (map Rx bs) = Some rest' \<longrightarrow>
      (\<exists>pre'. map Rx (pre' @ tok) @ rest' = map Rx bs))"
proof (intro conjI impI)
  have found: "wait_for_intron tok (map Rx (pre @ tok) @ rest) = Some rest"
    if a: "tok \<noteq> []" "intron_cursor tok 0 pre = 0"
  proof -
    from a have "intron_cursor tok 0 pre < length tok" by simp
    from wfi_prefix [OF this, of "map Rx tok @ rest"] a
    have "wait_for_intron_loop tok 0 (map Rx pre @ map Rx tok @ rest) =
          wait_for_intron_loop tok 0 (map Rx tok @ rest)" by simp
    also have "\<dots> = Some rest" using wfi_token [of 0 tok rest] by simp
    finally show ?thesis by (simp add: wait_for_intron_def)
  qed
  {
    assume "tok \<noteq> [] \<and> intron_cursor tok 0 pre = 0"
    then have "tok \<noteq> []" "intron_cursor tok 0 pre = 0" by simp_all
    then show "wait_for_intron tok (map Rx (pre @ tok) @ rest) = Some rest"
      by (rule found)
  next
    assume "tok \<noteq> [] \<and> hd tok \<notin> set pre"
    then have "tok \<noteq> []" "intron_cursor tok 0 pre = 0"
      by (simp_all add: intron_cursor_fresh)
    then show "wait_for_intron tok (map Rx (pre @ tok) @ rest) = Some rest"
      by (rule found)
  }
next
  assume "wait_for_intron tok (map Rx bs) = Some rest'"
  then have "wait_for_intron_loop tok 0 (map Rx bs) = Some rest'"
    by (simp add: wait_for_intron_def)
  from wfi_sound [OF this] obtain pre used where
    "used = pre @ tok" "map Rx used @ rest' = map Rx bs" by auto
  then show "\<exists>pre'. map Rx (pre' @ tok) @ rest' = map Rx bs" by auto
qed

theorem wait_for_intron_resync_witness:
  "default_intron \<noteq> [] \<and> intron_cursor default_intron 0 [0x55, 7] = 0 \<and>
   hd default_intron \<notin> set [9, 7] \<and>
   wait_for_intron default_intron (map Rx ([9, 7] @ default_intron) @ [Rx 4]) = Some [Rx 4] \<and>
   wait_for_intron default_intron (map Rx ([0x55, 7] @ default_intron) @ [Rx 4]) = Some [Rx 4] \<and>
   (\<exists>pre'. map Rx (pre' @ default_intron) @ [Rx 4] = map Rx ([0x55, 7] @ default_intron @ [4]))"
  using wait_for_intron_resync [of default_intron "[0x55, 7]" "[Rx 4]"
          "[0x55, 7] @ default_intron @ [4]" "[Rx 4]"]
        wait_for_intron_resync [of default_intron "[9, 7]" "[Rx 4]"]
  by (simp add: default_intron_def)

text \<open>
  Claim C2 as stated fails. The line \<open>U\<close>, token, token holds the token from its
  second byte on, but the scanner stops only at the end of the second token; on the line
  \<open>U\<close>, token it never stops although the token is there.
\<close>

theorem wait_for_intron_misses_first_occurrence:
  "wait_for_intron default_intron (map Rx (0x55 # default_intron @ default_intron)) = Some [] \<and>
   wait_for_intron default_intron (map Rx (0x55 # default_intron)) = None"
  by (simp add: wait_for_intron_def default_intron_def wfi_byte wfi_done
                wait_for_intron_loop.simps)

subsection \<open>Reading a given number of bytes\<close>

lemma after_data_Nil [simp]: "after_data n [] = []"
  by (cases n) auto

lemma rx_data_after_data: "rx_data (after_data n es) = drop n (rx_data es)"
  by (induction n es rule: after_data.induct) auto

lemma after_data_add: "after_data (m + n) es = after_data n (after_data m es)"
  by (induction m es rule: after_data.induct) auto

lemma after_data_no_error: "RxError \<notin> set es \<Longrightarrow> RxError \<notin> set (after_data n es)"
  by (induction n es rule: after_data.induct) auto

lemma uart_take_spec:
  "uart_take n es = (bs, r) \<Longrightarrow>
   r = after_data (length bs) es \<and> bs = take (length bs) (rx_data es) \<and> length bs \<le> n"
  by (induction n es arbitrary: bs r rule: uart_take.induct) (auto split: prod.splits)

lemma uart_take_nonempty: "0 < n \<Longrightarrow> uart_take n (Rx b # es) = (bs, r) \<Longrightarrow> bs \<noteq> []"
  by (cases n) (auto split: prod.splits)

lemma read_uart_loop_spec:
  "RxError \<notin> set es \<Longrightarrow> len - trr \<le> length (rx_data es) \<Longrightarrow>
   read_uart_loop trr len got es =
     Some (max trr len, got @ take (len - trr) (rx_data es), after_data (len - trr) es)"
proof (induction trr len got es rule: read_uart_loop.induct)
  case (1 trr len got es)
  show ?case
  proof (cases "trr < len")
    case False
    then show ?thesis by (simp add: read_uart_loop.simps)
  next
    case True
    then obtain k where k: "len - trr = Suc k" by (cases "len - trr") auto
    show ?thesis
    proof (cases es)
      case Nil
      with "1.prems" k show ?thesis by simp
    next
      case (Cons e es')
      show ?thesis
      proof (cases e)
        case RxError
        with Cons "1.prems" show ?thesis by simp
      next
        case RxTimeout
        have "read_uart_loop (trr + nat 0) len (got @ []) es' =
              Some (max (trr + nat 0) len, (got @ []) @ take (len - (trr + nat 0)) (rx_data es'),
                    after_data (len - (trr + nat 0)) es')"
          using "1.prems" Cons RxTimeout True
          by (intro "1.IH" [of "(0, [], es')" 0 "([], es')" "[]" es']) auto
        with True Cons RxTimeout k show ?thesis
          by (subst read_uart_loop.simps) simp
      next
        case (Rx b)
        obtain bs r where t: "uart_take (len - trr) (Rx b # es') = (bs, r)"
          by (cases "uart_take (len - trr) (Rx b # es')") auto
        from uart_take_spec [OF t]
        have r: "r = after_data (length bs) (Rx b # es')"
          and bs: "bs = take (length bs) (rx_data (Rx b # es'))"
          and le: "length bs \<le> len - trr" by auto
        have ne: "bs \<noteq> []" using uart_take_nonempty [OF _ t] True by simp
        have IH: "read_uart_loop (trr + nat (int (length bs))) len (got @ bs) r =
              Some (max (trr + nat (int (length bs))) len,
                    (got @ bs) @ take (len - (trr + nat (int (length bs)))) (rx_data r),
                    after_data (len - (trr + nat (int (length bs)))) r)"
        proof (intro "1.IH" [of "(int (length bs), bs, r)" "int (length bs)" "(bs, r)" bs r])
          show "trr < len" by (rule True)
          show "uart_read_bytes (len - trr) es = Some (int (length bs), bs, r)"
            using Cons Rx t by simp
          show "RxError \<notin> set r" using r "1.prems" Cons Rx
            by (simp add: after_data_no_error)
          show "len - (trr + nat (int (length bs))) \<le> length (rx_data r)"
            using r "1.prems" Cons Rx le by (simp add: rx_data_after_data)
        qed simp_all
        have split: "len - trr = length bs + (len - (trr + length bs))" using le by simp
        have "take (len - trr) (rx_data es) =
              bs @ take (len - (trr + length bs)) (rx_data r)"
        proof -
          have "take (len - trr) (rx_data es) =
                take (length bs) (rx_data es) @ take (len - (trr + length bs)) (drop (length bs) (rx_data es))"
            by (subst split) (rule take_add)
          then show ?thesis using bs r Cons Rx by (simp add: rx_data_after_data)
        qed
        moreover have "after_data (len - trr) es = after_data (len - (trr + length bs)) r"
          using r Cons Rx by (subst split) (simp only: after_data_add)
        moreover have "read_uart_loop trr len got es =
                       read_uart_loop (trr + length bs) len (got @ bs) r"
          using True Cons Rx t by (subst read_uart_loop.simps) simp
        ultimately show ?thesis using IH True le by simp
      qed
    qed
  qed
qed

lemma read_uart_spec:
  "RxError \<notin> set es \<Longrightarrow> n \<le> length (rx_data es) \<Longrightarrow>
   read_uart n es = Some (n, take n (rx_data es), after_data n es)"
  using read_uart_loop_spec [of es n 0 "[]"] by (simp add: read_uart_def)

lemma nomem_drain_spec:
  "RxError \<notin> set es \<Longrightarrow> n \<le> length (rx_data es) \<Longrightarrow> nomem_drain n es = Some (after_data n es)"
proof (induction n arbitrary: es)
  case 0
  then show ?case by simp
next
  case (Suc n)
  then have r: "read_uart 1 es = Some (1, take 1 (rx_data es), after_data 1 es)"
    by (intro read_uart_spec) auto
  have "nomem_drain n (after_data 1 es) = Some (after_data n (after_data 1 es))"
    using Suc.prems by (intro Suc.IH) (auto simp: after_data_no_error rx_data_after_data)
  with r show ?case using after_data_add [of 1 n es] by simp
qed


subsection \<open>Link health\<close>

lemma elapsed_word:
  "unat (if now \<ge> seen then now - seen else now) = spec_elapsed now seen"
  by (auto simp: spec_elapsed_def word_le_nat_alt unat_sub word_less_nat_alt not_le)

lemma elapsed_gt:
  "((if now \<ge> seen then now - seen else now) > INACTIVE_PACKET_SECONDS) = (5 < spec_elapsed now seen)"
  unfolding elapsed_word [symmetric] INACTIVE_PACKET_SECONDS_def
  by (simp add: word_less_nat_alt)

lemma check_online_status_fires:
  "associated s \<Longrightarrow> \<not> probe_in_progress s \<Longrightarrow>
   5 < spec_elapsed now (last_inbound_seen s) \<Longrightarrow>
   check_online_status now s =
     s\<lparr>probe_in_progress := True, probe_retry_count := 0, trace := trace s @ [ScanStart]\<rparr>"
  using elapsed_gt [of "last_inbound_seen s" now]
  by (simp add: check_online_status_def Let_def probe_run_def emit_def)

lemma check_online_status_idle:
  "\<not> associated s \<or> probe_in_progress s \<or> spec_elapsed now (last_inbound_seen s) \<le> 5 \<Longrightarrow>
   check_online_status now s = s"
  using elapsed_gt [of "last_inbound_seen s" now]
  by (auto simp: check_online_status_def Let_def)

text \<open>
  Claim C4. In a state that is associated and not probing, with more than 5 seconds
  elapsed since the last inbound frame (a clock reading below the last sighting counts
  as the elapsed time itself), the periodic check sets the probing flag, resets the
  retry counter to 0 and requests exactly one scan, changing nothing else. In every
  other state it changes nothing and requests no scan.
\<close>

theorem check_online_status_probes:
  "(associated s \<and> \<not> probe_in_progress s \<and> 5 < spec_elapsed now (last_inbound_seen s) \<longrightarrow>
      check_online_status now s =
        s\<lparr>probe_in_progress := True, probe_retry_count := 0, trace := trace s @ [ScanStart]\<rparr>) \<and>
   (\<not> associated s \<or> probe_in_progress s \<or> spec_elapsed now (last_inbound_seen s) \<le> 5 \<longrightarrow>
      check_online_status now s = s)"
proof (intro conjI impI)
  assume "associated s \<and> \<not> probe_in_progress s \<and> 5 < spec_elapsed now (last_inbound_seen s)"
  then show "check_online_status now s =
      s\<lparr>probe_in_progress := True, probe_retry_count := 0, trace := trace s @ [ScanStart]\<rparr>"
    by (simp add: check_online_status_fires)
next
  assume "\<not> associated s \<or> probe_in_progress s \<or> spec_elapsed now (last_inbound_seen s) \<le> 5"
  then show "check_online_status now s = s"
    by (rule check_online_status_idle)
qed

text \<open>
  Last sighting at second 10: the check at second 16 starts the probe, the check at
  second 15 does nothing.
\<close>

theorem check_online_status_probes_witness:
  "check_online_status 16 (init_state\<lparr>associated := True, last_inbound_seen := 10\<rparr>) = probing_state \<and>
   check_online_status 15 (init_state\<lparr>associated := True, last_inbound_seen := 10\<rparr>) =
     init_state\<lparr>associated := True, last_inbound_seen := 10\<rparr>"
  using check_online_status_probes [of "init_state\<lparr>associated := True, last_inbound_seen := 10\<rparr>" 16]
        check_online_status_probes [of "init_state\<lparr>associated := True, last_inbound_seen := 10\<rparr>" 15]
  by (simp add: init_state_def spec_elapsed_def probing_state_def)

lemma non_matching_handler:
  "non_matching drv ev s \<Longrightarrow> event_handler drv now ev s = Inr (scan_done_result False now s)"
  by (auto simp: non_matching_def event_handler_def Let_def split: wifi_event.splits option.splits)

lemma non_matching_quirk:
  "beacon_quirk s' = beacon_quirk s \<Longrightarrow> non_matching drv ev s' = non_matching drv ev s"
  by (simp add: non_matching_def split: wifi_event.splits option.splits)

lemma scan_done_retry:
  "probe_retry_count s < probe_max_reties \<Longrightarrow>
   scan_done_result False now s =
     s\<lparr>probe_retry_count := probe_retry_count s + 1, trace := trace s @ [ScanStart]\<rparr>"
  by (simp add: scan_done_result_def Let_def probe_run_def emit_def)

lemma scan_done_exhausted:
  "\<not> probe_retry_count s < probe_max_reties \<Longrightarrow>
   scan_done_result False now s =
     s\<lparr>probe_retry_count := probe_retry_count s + 1, probe_in_progress := False,
       trace := trace s @ Log ''Sending link status'' # link_status_frame (intron s) 0\<rparr>"
  by (simp add: scan_done_result_def Let_def send_link_status_def emit_def)

lemma scan_done_found:
  "scan_done_result True now s = s\<lparr>probe_in_progress := False, last_inbound_seen := now\<rparr>"
  by (simp add: scan_done_result_def)

text \<open>
  Claim C3, as amended. A probe starts with the retry counter at 0 and its first scan
  already requested. Each of the first three scan-done events without a match requests
  one more scan and leaves the probing flag alone; only the fourth emits
  LinkStatus(down), clears the probing flag and requests no further scan. So a probe
  makes four scans, the first and three retries.
\<close>

theorem probe_retry_bound:
  assumes "probe_retry_count s = 0"
    and "non_matching drv e1 s" and "non_matching drv e2 s"
    and "non_matching drv e3 s" and "non_matching drv e4 s"
  shows "run_events drv [(t1, e1), (t2, e2), (t3, e3)] s =
           Inr (s\<lparr>probe_retry_count := 3, trace := trace s @ [ScanStart, ScanStart, ScanStart]\<rparr>) \<and>
         run_events drv [(t1, e1), (t2, e2), (t3, e3), (t4, e4)] s =
           Inr (s\<lparr>probe_retry_count := 4, probe_in_progress := False,
                  trace := trace s @ [ScanStart, ScanStart, ScanStart, Log ''Sending link status'']
                           @ link_status_frame (intron s) 0\<rparr>)"
proof -
  define s1 where "s1 = s\<lparr>probe_retry_count := 1, trace := trace s @ [ScanStart]\<rparr>"
  define s2 where "s2 = s\<lparr>probe_retry_count := 2, trace := trace s @ [ScanStart, ScanStart]\<rparr>"
  define s3 where "s3 = s\<lparr>probe_retry_count := 3, trace := trace s @ [ScanStart, ScanStart, ScanStart]\<rparr>"
  have h1: "event_handler drv t1 e1 s = Inr s1"
    using assms(1,2) by (simp add: non_matching_handler scan_done_retry probe_max_reties_def s1_def)
  have "non_matching drv e2 s1"
    using assms(3) non_matching_quirk [of s1 s drv e2] by (simp add: s1_def)
  then have h2: "event_handler drv t2 e2 s1 = Inr s2"
    by (simp add: non_matching_handler scan_done_retry probe_max_reties_def s1_def s2_def)
  have "non_matching drv e3 s2"
    using assms(4) non_matching_quirk [of s2 s drv e3] by (simp add: s2_def)
  then have h3: "event_handler drv t3 e3 s2 = Inr s3"
    by (simp add: non_matching_handler scan_done_retry probe_max_reties_def s2_def s3_def)
  have "non_matching drv e4 s3"
    using assms(5) non_matching_quirk [of s3 s drv e4] by (simp add: s3_def)
  then have h4: "event_handler drv t4 e4 s3 =
      Inr (s\<lparr>probe_retry_count := 4, probe_in_progress := False,
             trace := trace s @ [ScanStart, ScanStart, ScanStart, Log ''Sending link status'']
                      @ link_status_frame (intron s) 0\<rparr>)"
    by (simp add: non_matching_handler scan_done_exhausted probe_max_reties_def s3_def)
  from h1 h2 h3 h4 show ?thesis by (simp add: s3_def)
qed

text \<open>Four empty scans on the probe started at second 16.\<close>

theorem probe_retry_bound_witness:
  "probe_retry_count probing_state = 0 \<and> non_matching drv_ok scan_empty probing_state \<and>
   run_events drv_ok [(17, scan_empty), (18, scan_empty), (19, scan_empty), (20, scan_empty)]
     probing_state =
     Inr (probing_state\<lparr>probe_retry_count := 4, probe_in_progress := False,
            trace := [ScanStart, ScanStart, ScanStart, ScanStart, Log ''Sending link status'']
                     @ link_status_frame default_intron 0\<rparr>)"
proof -
  have h: "probe_retry_count probing_state = 0" "non_matching drv_ok scan_empty probing_state"
    by (simp_all add: probing_state_def init_state_def non_matching_def scan_empty_def drv_ok_def)
  from probe_retry_bound [OF h(1) h(2) h(2) h(2) h(2), of 17 18 19 20] h show ?thesis
    by (simp add: probing_state_def init_state_def)
qed

text \<open>
  Claim C3 as stated fails. After three scan-done events without a match the handler
  has requested a fourth scan (the trace holds four requests), has emitted no
  LinkStatus frame, and the probe is still in progress.
\<close>

theorem three_misses_issue_fourth_scan:
  "run_events drv_ok [(17, scan_empty), (18, scan_empty), (19, scan_empty)] probing_state =
     Inr (probing_state\<lparr>probe_retry_count := 3,
            trace := [ScanStart, ScanStart, ScanStart, ScanStart]\<rparr>) \<and>
   probe_in_progress probing_state"
  by (simp add: probing_state_def init_state_def scan_empty_def drv_ok_def event_handler_def
        scan_done_result_def probe_max_reties_def probe_run_def emit_def Let_def)


lemma dispatch_get_link:
  "dispatch drv malloc_buff malloc_data MSG_GET_LINK s =
     Some (Inr (s\<lparr>associated := (sta_ap_info drv \<noteq> None),
                  trace := trace s @ Log ''Sending link status''
                           # link_status_frame (intron s) (if sta_ap_info drv \<noteq> None then 1 else 0)\<rparr>))"
  by (simp add: get_link_status_def dispatch_def Let_def send_link_status_def emit_def
        MSG_GET_LINK_def MSG_PACKET_def MSG_CLIENTCONFIG_def)

lemma read_message_get_link:
  assumes "wait_for_intron (intron s) (uart_rx s) = Some (Rx MSG_GET_LINK # es)"
  shows "read_message drv malloc_buff malloc_data now s =
           dispatch drv malloc_buff malloc_data MSG_GET_LINK
             ((check_online_status now (s\<lparr>uart_rx := Rx MSG_GET_LINK # es\<rparr>))\<lparr>uart_rx := es\<rparr>)"
proof -
  have "uart_rx (check_online_status now (s\<lparr>uart_rx := Rx MSG_GET_LINK # es\<rparr>)) =
          Rx MSG_GET_LINK # es"
    by (simp add: check_online_status_def Let_def probe_run_def emit_def)
  then show ?thesis using assms
    by (simp add: read_message_def Let_def first_byte_def)
qed

text \<open>
  Claim C9. When a scan-done event without a match finds the retries used up, the
  handler emits LinkStatus(down) and clears the probing flag, but leaves \<open>associated\<close>
  set and \<open>last_inbound_seen\<close> as it was. If the probe was started because more than 5
  seconds had passed at second \<open>now0\<close>, then at any later reading \<open>now1\<close> of an unwrapped
  clock the periodic check fires again: it sets the probing flag, resets the counter and
  requests a scan. The next round of the read loop that finds the token (here followed
  by a GetLinkStatus byte) does exactly that before it handles the message.
\<close>

theorem exhausted_probe_restarts:
  assumes "associated s" and "\<not> probe_retry_count s < probe_max_reties"
    and "non_matching drv ev s"
    and "unat (last_inbound_seen s) \<le> unat now0"
    and "5 < unat now0 - unat (last_inbound_seen s)"
    and "unat now0 \<le> unat now1"
  shows "\<exists>s1. event_handler drv t ev s = Inr s1 \<and>
           \<not> probe_in_progress s1 \<and> associated s1 \<and>
           last_inbound_seen s1 = last_inbound_seen s \<and>
           trace s1 = trace s @ Log ''Sending link status'' # link_status_frame (intron s) 0 \<and>
           check_online_status now1 s1 =
             s1\<lparr>probe_in_progress := True, probe_retry_count := 0,
                trace := trace s1 @ [ScanStart]\<rparr> \<and>
           (\<forall>es. wait_for_intron (intron s1) (uart_rx s1) = Some (Rx MSG_GET_LINK # es) \<longrightarrow>
              (\<exists>s2. read_message drv' malloc_buff malloc_data now1 s1 = Some (Inr s2) \<and>
                 probe_in_progress s2 \<and> probe_retry_count s2 = 0 \<and>
                 trace s2 = trace s1 @ ScanStart # Log ''Sending link status''
                            # link_status_frame (intron s)
                                (if sta_ap_info drv' \<noteq> None then 1 else 0)))"
proof -
  define s1 where "s1 = scan_done_result False t s"
  have e: "event_handler drv t ev s = Inr s1"
    using assms(3) by (simp add: non_matching_handler s1_def)
  have s1: "s1 = s\<lparr>probe_retry_count := probe_retry_count s + 1, probe_in_progress := False,
       trace := trace s @ Log ''Sending link status'' # link_status_frame (intron s) 0\<rparr>"
    unfolding s1_def using assms(2) by (rule scan_done_exhausted)
  have f: "\<not> probe_in_progress s1" "associated s1" "last_inbound_seen s1 = last_inbound_seen s"
    "trace s1 = trace s @ Log ''Sending link status'' # link_status_frame (intron s) 0"
    "intron s1 = intron s"
    using assms(1) by (simp_all add: s1)
  have el: "5 < spec_elapsed now1 (last_inbound_seen s1)"
    using assms(4-6) f(3) by (simp add: spec_elapsed_def)
  have c: "check_online_status now1 s1 =
          s1\<lparr>probe_in_progress := True, probe_retry_count := 0, trace := trace s1 @ [ScanStart]\<rparr>"
    using f(2) f(1) el by (rule check_online_status_fires)
  have r: "\<exists>s2. read_message drv' malloc_buff malloc_data now1 s1 = Some (Inr s2) \<and>
                 probe_in_progress s2 \<and> probe_retry_count s2 = 0 \<and>
                 trace s2 = trace s1 @ ScanStart # Log ''Sending link status''
                            # link_status_frame (intron s)
                                (if sta_ap_info drv' \<noteq> None then 1 else 0)"
    if w: "wait_for_intron (intron s1) (uart_rx s1) = Some (Rx MSG_GET_LINK # es)" for es
  proof -
    let ?x = "s1\<lparr>uart_rx := Rx MSG_GET_LINK # es\<rparr>"
    have "associated ?x" "\<not> probe_in_progress ?x" "5 < spec_elapsed now1 (last_inbound_seen ?x)"
      using f el by simp_all
    then have "check_online_status now1 ?x =
        ?x\<lparr>probe_in_progress := True, probe_retry_count := 0, trace := trace ?x @ [ScanStart]\<rparr>"
      by (rule check_online_status_fires)
    then show ?thesis
      using f(5) by (simp add: read_message_get_link [OF w] dispatch_get_link)
  qed
  from e f c r show ?thesis by blast
qed

text \<open>The probe of the examples, exhausted at second 20, and the read loop at second 21.\<close>

theorem exhausted_probe_restarts_witness:
  "associated exhausted_state \<and> \<not> probe_retry_count exhausted_state < probe_max_reties \<and>
   non_matching drv_ok scan_empty exhausted_state \<and>
   (\<exists>s1. event_handler drv_ok 20 scan_empty exhausted_state = Inr s1 \<and>
      \<not> probe_in_progress s1 \<and> associated s1 \<and> last_inbound_seen s1 = 10 \<and>
      check_online_status 21 s1 =
        s1\<lparr>probe_in_progress := True, probe_retry_count := 0, trace := trace s1 @ [ScanStart]\<rparr> \<and>
      wait_for_intron (intron s1) (uart_rx s1) = Some [Rx MSG_GET_LINK] \<and>
      (\<exists>s2. read_message drv_ok True True 21 s1 = Some (Inr s2) \<and>
         probe_in_progress s2 \<and> probe_retry_count s2 = 0))"
proof -
  have h: "associated exhausted_state" "\<not> probe_retry_count exhausted_state < probe_max_reties"
    "non_matching drv_ok scan_empty exhausted_state"
    "unat (last_inbound_seen exhausted_state) \<le> unat (16 :: 32 word)"
    "5 < unat (16 :: 32 word) - unat (last_inbound_seen exhausted_state)"
    "unat (16 :: 32 word) \<le> unat (21 :: 32 word)"
    by (simp_all add: exhausted_state_def probing_state_def init_state_def non_matching_def
          scan_empty_def drv_ok_def probe_max_reties_def)
  have l: "last_inbound_seen exhausted_state = 10"
    by (simp add: exhausted_state_def probing_state_def init_state_def)
  from exhausted_probe_restarts [OF h, of 20 drv_ok True True]
  obtain s1 where s1: "event_handler drv_ok 20 scan_empty exhausted_state = Inr s1"
    "\<not> probe_in_progress s1" "associated s1" "last_inbound_seen s1 = last_inbound_seen exhausted_state"
    "check_online_status 21 s1 =
       s1\<lparr>probe_in_progress := True, probe_retry_count := 0, trace := trace s1 @ [ScanStart]\<rparr>"
    "\<And>es. wait_for_intron (intron s1) (uart_rx s1) = Some (Rx MSG_GET_LINK # es) \<Longrightarrow>
       \<exists>s2. read_message drv_ok True True 21 s1 = Some (Inr s2) \<and>
         probe_in_progress s2 \<and> probe_retry_count s2 = 0"
    by blast
  have "s1 = scan_done_result False 20 exhausted_state"
    using s1(1) non_matching_handler [OF h(3), of 20] by simp
  then have "intron s1 = default_intron" "uart_rx s1 = map Rx (default_intron @ [MSG_GET_LINK])"
    using scan_done_exhausted [OF h(2), of 20]
    by (simp_all add: exhausted_state_def probing_state_def init_state_def)
  then have w: "wait_for_intron (intron s1) (uart_rx s1) = Some [Rx MSG_GET_LINK]"
    using wfi_token [of 0 default_intron "[Rx MSG_GET_LINK]"]
    by (simp add: wait_for_intron_def)
  from s1(6) [OF w] s1(1-5) w h(1-3) l show ?thesis by auto
qed

text \<open>
  Claim C10. \<^verbatim>\<open>get_link_status\<close> overwrites \<open>associated\<close> with whether the driver's
  association query returned without error, and handling a GetLinkStatus message
  changes nothing else of the state but the trace, to which it adds the LinkStatus
  frame carrying that answer.
\<close>

theorem get_link_status_sets_associated:
  "get_link_status drv s = (sta_ap_info drv \<noteq> None, s\<lparr>associated := (sta_ap_info drv \<noteq> None)\<rparr>) \<and>
   dispatch drv malloc_buff malloc_data MSG_GET_LINK s =
     Some (Inr (s\<lparr>associated := (sta_ap_info drv \<noteq> None),
                  trace := trace s @ Log ''Sending link status''
                           # link_status_frame (intron s) (if sta_ap_info drv \<noteq> None then 1 else 0)\<rparr>))"
proof
  show "get_link_status drv s =
          (sta_ap_info drv \<noteq> None, s\<lparr>associated := (sta_ap_info drv \<noteq> None)\<rparr>)"
    by (simp add: get_link_status_def Let_def)
  show "dispatch drv malloc_buff malloc_data MSG_GET_LINK s =
     Some (Inr (s\<lparr>associated := (sta_ap_info drv \<noteq> None),
                  trace := trace s @ Log ''Sending link status''
                           # link_status_frame (intron s) (if sta_ap_info drv \<noteq> None then 1 else 0)\<rparr>))"
    by (rule dispatch_get_link)
qed

text \<open>A state that is not associated becomes associated by the query alone.\<close>

theorem get_link_status_sets_associated_witness:
  "\<not> associated init_state \<and>
   dispatch drv_ok True True MSG_GET_LINK init_state =
     Some (Inr (init_state\<lparr>associated := True,
                  trace := Log ''Sending link status'' # link_status_frame default_intron 1\<rparr>))"
  using get_link_status_sets_associated [of drv_ok init_state True True]
  by (simp add: init_state_def drv_ok_def)


subsection \<open>Packet messages\<close>

lemma rx_data_map_Rx: "rx_data (map Rx bs @ es) = bs @ rx_data es"
  by (induction bs) auto

lemma uart_take_clean: "uart_take (length bs) (map Rx bs @ es) = (bs, es)"
proof (induction bs)
  case Nil
  then show ?case by (cases es) auto
next
  case (Cons b bs)
  then show ?case by simp
qed

lemma read_uart_loop_done: "len \<le> trr \<Longrightarrow> read_uart_loop trr len got es = Some (trr, got, es)"
  by (simp add: read_uart_loop.simps)

lemma read_uart_loop_step:
  "trr < len \<Longrightarrow> uart_read_bytes (len - trr) es = Some (rd, bs, es') \<Longrightarrow> 0 \<le> rd \<Longrightarrow>
   read_uart_loop trr len got es = read_uart_loop (trr + nat rd) len (got @ bs) es'"
  by (subst read_uart_loop.simps) simp

lemma read_uart_clean: "read_uart (length bs) (map Rx bs @ es) = Some (length bs, bs, es)"
proof (cases bs)
  case Nil
  then show ?thesis by (simp add: read_uart_def read_uart_loop_done)
next
  case (Cons b bs')
  have r: "uart_read_bytes (length bs - 0) (map Rx bs @ es) = Some (int (length bs), bs, es)"
    using uart_take_clean [of bs es] Cons by simp
  have "read_uart_loop 0 (length bs) [] (map Rx bs @ es) =
        read_uart_loop (0 + nat (int (length bs))) (length bs) ([] @ bs) es"
    using Cons by (intro read_uart_loop_step [OF _ r]) auto
  then show ?thesis by (simp add: read_uart_def read_uart_loop_done)
qed

lemma read_uart_one: "read_uart 1 (Rx b # es) = Some (1, [b], es)"
  using read_uart_clean [of "[b]" es] by simp

lemma le32_2001: "le32 [0xD1, 0x07, 0, 0] = 2001"
  by (simp add: le32_def)

text \<open>
  Claim C1, on the code. A Packet message declares 2001 bytes and sends them, followed
  by the token of the next frame. \<^verbatim>\<open>read_packet_message\<close> logs the size and returns
  with all 2001 payload bytes still on the line: it drains none of them, where the
  claim has it drain exactly 2001.
\<close>

theorem oversized_packet_not_drained:
  "read_packet_message True True
     (init_state\<lparr>uart_rx := map Rx [0xD1, 0x07, 0, 0] @ replicate 2001 (Rx 0xAA) @ map Rx default_intron\<rparr>) =
   Some (init_state\<lparr>uart_rx := replicate 2001 (Rx 0xAA) @ map Rx default_intron,
                     trace := [Log ''Invalid packet size'']\<rparr>)"
proof -
  have "read_uart (length [0xD1, 0x07, 0, 0 :: byte])
          (map Rx [0xD1, 0x07, 0, 0] @ replicate 2001 (Rx 0xAA) @ map Rx default_intron) =
        Some (length [0xD1, 0x07, 0, 0 :: byte], [0xD1, 0x07, 0, 0],
              replicate 2001 (Rx 0xAA) @ map Rx default_intron)"
    by (rule read_uart_clean)
  moreover have "length [0xD1, 0x07, 0, 0 :: byte] = 4" by simp
  ultimately have "read_uart 4
          (map Rx [0xD1, 0x07, 0, 0] @ replicate 2001 (Rx 0xAA) @ map Rx default_intron) =
        Some (4, [0xD1, 0x07, 0, 0], replicate 2001 (Rx 0xAA) @ map Rx default_intron)"
    by (simp only:)
  then show ?thesis
    by (simp add: read_packet_message_def stored_def le32_2001 emit_def init_state_def)
qed

text \<open>
  Claim C8. On a line without read errors that holds the four length bytes and at
  least the declared number \<open>sz \<le> 2000\<close> of payload bytes, a Packet message for which
  either allocation fails is handled to the end: the handler returns, it has logged the
  failure, it has taken exactly the four length bytes and \<open>sz\<close> payload bytes off the
  line (with the time-outs in front of them), and nothing else of the state has changed;
  in particular nothing was enqueued.
\<close>

theorem nomem_drains_declared_length:
  assumes "RxError \<notin> set (uart_rx s)"
    and "sz = le32 (take 4 (rx_data (uart_rx s)))"
    and "sz \<le> 2000"
    and "4 + unat sz \<le> length (rx_data (uart_rx s))"
    and "\<not> malloc_buff \<or> \<not> malloc_data"
  shows "read_packet_message malloc_buff malloc_data s =
           Some (s\<lparr>uart_rx := after_data (4 + unat sz) (uart_rx s),
                   trace := trace s @ [Log ''Out of mem for packet data'']\<rparr>) \<and>
         rx_data (after_data (4 + unat sz) (uart_rx s)) = drop (4 + unat sz) (rx_data (uart_rx s))"
proof -
  let ?es = "uart_rx s"
  have hdr: "read_uart 4 ?es = Some (4, take 4 (rx_data ?es), after_data 4 ?es)"
    using assms(1,4) by (intro read_uart_spec) auto
  have st: "stored (take 4 (rx_data ?es)) [0, 0, 0, 0] = take 4 (rx_data ?es)"
    using assms(4) by (simp add: stored_def)
  have "nomem_drain (unat sz) (after_data 4 ?es) = Some (after_data (unat sz) (after_data 4 ?es))"
    using assms(1,4) by (intro nomem_drain_spec) (auto simp: after_data_no_error rx_data_after_data)
  then have dr: "nomem sz (s\<lparr>uart_rx := after_data 4 ?es\<rparr>) =
      Some (s\<lparr>uart_rx := after_data (4 + unat sz) ?es,
              trace := trace s @ [Log ''Out of mem for packet data'']\<rparr>)"
    by (simp add: nomem_def emit_def after_data_add)
  have nb: "\<not> 2000 < sz" using assms(3) by (simp add: not_less)
  have "read_packet_message malloc_buff malloc_data s =
          nomem sz (s\<lparr>uart_rx := after_data 4 ?es\<rparr>)"
    using hdr st assms(2,5) nb by (auto simp: read_packet_message_def Let_def)
  with dr show ?thesis by (simp add: rx_data_after_data)
qed

text \<open>Declared length 3, the first allocation fails: the byte after the payload stays.\<close>

theorem nomem_drains_declared_length_witness:
  "RxError \<notin> set nomem_line \<and> le32 (take 4 (rx_data nomem_line)) = 3 \<and>
   read_packet_message False True (init_state\<lparr>uart_rx := nomem_line\<rparr>) =
     Some (init_state\<lparr>uart_rx := [Rx 0x55, RxTimeout],
                       trace := [Log ''Out of mem for packet data'']\<rparr>)"
proof -
  have h: "RxError \<notin> set (uart_rx (init_state\<lparr>uart_rx := nomem_line\<rparr>))"
    "(3 :: 32 word) = le32 (take 4 (rx_data (uart_rx (init_state\<lparr>uart_rx := nomem_line\<rparr>))))"
    "(3 :: 32 word) \<le> 2000"
    "4 + unat (3 :: 32 word) \<le> length (rx_data (uart_rx (init_state\<lparr>uart_rx := nomem_line\<rparr>)))"
    "\<not> False \<or> \<not> True"
    by (simp_all add: nomem_line_def le32_def)
  have "after_data 7 nomem_line = [Rx 0x55, RxTimeout]"
    by code_simp
  moreover have "4 + unat (3 :: 32 word) = 7" by simp
  ultimately have a: "after_data (4 + unat (3 :: 32 word)) nomem_line = [Rx 0x55, RxTimeout]"
    by (simp only:)
  from nomem_drains_declared_length [OF h] a h(1,2) show ?thesis
    by (simp add: init_state_def)
qed

subsection \<open>The MAC filter of the receive callback\<close>

text \<open>
  Claim C6, on the code. The filter takes the group bit from the last octet of the
  destination address (\<^verbatim>\<open>buffer[5]\<close>), not from the first. With station MAC
  02:00:00:00:00:10, a multicast frame to 33:33:00:00:00:02 is released and not
  enqueued, and a unicast frame to the other station 02:00:00:00:00:11 is enqueued.
\<close>

theorem mac_filter_tests_last_octet:
  "group_address mcast_frame \<and>
   wifi_receive_cb True 7 mcast_frame 14 1 station_state =
     station_state\<lparr>last_inbound_seen := 7, trace := [FreeRxBuffer 1, Free mcast_frame]\<rparr> \<and>
   \<not> group_address foreign_frame \<and> take 6 foreign_frame \<noteq> mac station_state \<and>
   wifi_receive_cb True 7 foreign_frame 14 2 station_state =
     station_state\<lparr>last_inbound_seen := 7,
       uart_tx_queue := [\<lparr>len_r = 14, data_r = foreign_frame, rx_buff = 2\<rparr>]\<rparr>"
  by (simp add: group_address_def mcast_frame_def foreign_frame_def station_state_def
        init_state_def wifi_receive_cb_def mac_mismatch_def rx_cleanup_def emit_def
        queue_full_def QUEUE_LENGTH_def Let_def upt_rec [of _ 6])


subsection \<open>Matching the scan results\<close>

lemma strncmp_eq_cstr: "strncmp_eq a b n = (cstr n a = cstr n b)"
  by (induction a b n rule: strncmp_eq.induct) (auto simp: cstr_def)

lemma bssid_pass_iff:
  "bssid_pass ap_info aps = (\<exists>r\<in>set aps. take 6 (bssid r) = take 6 (bssid ap_info))"
  by (induction aps) (auto simp: memcmp6_eq_def)

lemma ssid_pass_iff:
  "ssid_pass ap_info aps =
     (\<exists>r\<in>set aps. first_byte (ssid ap_info) \<noteq> 0 \<and> first_byte (ssid r) \<noteq> 0
                    \<and> cstr 32 (ssid r) = cstr 32 (ssid ap_info))"
  by (induction aps) (auto simp: strncmp_eq_cstr)

lemma scan_done_event:
  "sta_ap_info drv = Some ap_info \<Longrightarrow> scan_ap_records drv = Some recs \<Longrightarrow> number \<noteq> 0 \<Longrightarrow>
   event_handler drv now (WIFI_EVENT_SCAN_DONE 0 number) s =
     Inr (if bssid_pass ap_info (take (unat number) recs)
          then scan_done_result True now (s\<lparr>beacon_quirk := False\<rparr>)
          else if beacon_quirk s \<and> ssid_pass ap_info (take (unat number) recs)
               then scan_done_result True now s
               else scan_done_result False now s)"
  by (simp add: event_handler_def Let_def)

text \<open>
  Claim C5, as amended. On a successful scan-done event with results \<open>aps\<close>, with
  \<open>ap_info\<close> the record of the associated access point: if some result has the same
  BSSID, the handler clears \<open>beacon_quirk\<close>, sets \<open>last_inbound_seen\<close> to now and leaves
  probing. If none has and \<open>beacon_quirk\<close> is set, a result whose SSID and the
  associated SSID both start with a non-zero byte and are equal as strings (the bytes
  before the first NUL among the first 32) makes the handler leave probing and set
  \<open>last_inbound_seen\<close>, with \<open>beacon_quirk\<close> left set. Otherwise the event counts as
  not matching.
\<close>

theorem scan_done_two_pass_match:
  assumes "sta_ap_info drv = Some ap_info" and "scan_ap_records drv = Some recs"
    and "number \<noteq> 0" and "aps = take (unat number) recs"
    and "wf_ap ap_info" and "\<forall>r\<in>set aps. wf_ap r"
  shows
    "((\<exists>r\<in>set aps. bssid r = bssid ap_info) \<longrightarrow>
        event_handler drv now (WIFI_EVENT_SCAN_DONE 0 number) s =
          Inr (s\<lparr>beacon_quirk := False, probe_in_progress := False, last_inbound_seen := now\<rparr>)) \<and>
     (\<not> (\<exists>r\<in>set aps. bssid r = bssid ap_info) \<and> beacon_quirk s \<and>
      (\<exists>r\<in>set aps. first_byte (ssid ap_info) \<noteq> 0 \<and> first_byte (ssid r) \<noteq> 0
                     \<and> cstr 32 (ssid r) = cstr 32 (ssid ap_info)) \<longrightarrow>
        event_handler drv now (WIFI_EVENT_SCAN_DONE 0 number) s =
          Inr (s\<lparr>probe_in_progress := False, last_inbound_seen := now\<rparr>)) \<and>
     (\<not> (\<exists>r\<in>set aps. bssid r = bssid ap_info) \<and>
      \<not> (beacon_quirk s \<and>
         (\<exists>r\<in>set aps. first_byte (ssid ap_info) \<noteq> 0 \<and> first_byte (ssid r) \<noteq> 0
                        \<and> cstr 32 (ssid r) = cstr 32 (ssid ap_info))) \<longrightarrow>
        event_handler drv now (WIFI_EVENT_SCAN_DONE 0 number) s =
          Inr (scan_done_result False now s))"
proof -
  have b: "bssid_pass ap_info aps = (\<exists>r\<in>set aps. bssid r = bssid ap_info)"
    using assms(5,6) by (auto simp: bssid_pass_iff wf_ap_def)
  have e: "event_handler drv now (WIFI_EVENT_SCAN_DONE 0 number) s =
     Inr (if bssid_pass ap_info aps
          then scan_done_result True now (s\<lparr>beacon_quirk := False\<rparr>)
          else if beacon_quirk s \<and> ssid_pass ap_info aps
               then scan_done_result True now s
               else scan_done_result False now s)"
    unfolding assms(4) using assms(1-3) by (rule scan_done_event)
  show ?thesis
    unfolding e b [symmetric] ssid_pass_iff [symmetric]
    by (auto simp: Let_def scan_done_found)
qed

lemma wf_examples: "wf_ap ap_net" "wf_ap rec_same_bssid" "wf_ap rec_same_name" "wf_ap rec_other_tail"
  by (simp_all add: wf_ap_def ap_net_def rec_same_bssid_def rec_same_name_def rec_other_tail_def)

text \<open>
  One scan record each time: the same BSSID; another BSSID with the same name while
  \<open>beacon_quirk\<close> is set; and the latter again with \<open>beacon_quirk\<close> clear.
\<close>

theorem scan_done_two_pass_match_witness:
  "event_handler (drv_scan [rec_same_bssid]) 20 (WIFI_EVENT_SCAN_DONE 0 1) quirk_state =
     Inr (quirk_state\<lparr>beacon_quirk := False, probe_in_progress := False, last_inbound_seen := 20\<rparr>) \<and>
   event_handler (drv_scan [rec_same_name]) 20 (WIFI_EVENT_SCAN_DONE 0 1) quirk_state =
     Inr (quirk_state\<lparr>probe_in_progress := False, last_inbound_seen := 20\<rparr>) \<and>
   event_handler (drv_scan [rec_same_name]) 20 (WIFI_EVENT_SCAN_DONE 0 1) probing_state =
     Inr (scan_done_result False 20 probing_state)"
proof -
  have n: "(1 :: 16 word) \<noteq> 0" by simp
  have t: "[r] = take (unat (1 :: 16 word)) [r]" for r :: ap_record by simp
  have 1: "event_handler (drv_scan [rec_same_bssid]) 20 (WIFI_EVENT_SCAN_DONE 0 1) quirk_state =
     Inr (quirk_state\<lparr>beacon_quirk := False, probe_in_progress := False, last_inbound_seen := 20\<rparr>)"
    using scan_done_two_pass_match [of "drv_scan [rec_same_bssid]" ap_net "[rec_same_bssid]" 1
            "[rec_same_bssid]" 20 quirk_state, OF _ _ n t wf_examples(1)]
    by (simp add: drv_scan_def wf_examples) (simp add: ap_net_def rec_same_bssid_def)
  have 2: "event_handler (drv_scan [rec_same_name]) 20 (WIFI_EVENT_SCAN_DONE 0 1) quirk_state =
     Inr (quirk_state\<lparr>probe_in_progress := False, last_inbound_seen := 20\<rparr>)"
    using scan_done_two_pass_match [of "drv_scan [rec_same_name]" ap_net "[rec_same_name]" 1
            "[rec_same_name]" 20 quirk_state, OF _ _ n t wf_examples(1)]
    by (simp add: drv_scan_def wf_examples)
       (simp add: ap_net_def rec_same_name_def quirk_state_def first_byte_def)
  have 3: "event_handler (drv_scan [rec_same_name]) 20 (WIFI_EVENT_SCAN_DONE 0 1) probing_state =
     Inr (scan_done_result False 20 probing_state)"
    using scan_done_two_pass_match [of "drv_scan [rec_same_name]" ap_net "[rec_same_name]" 1
            "[rec_same_name]" 20 probing_state, OF _ _ n t wf_examples(1)]
    by (simp add: drv_scan_def wf_examples)
       (simp add: ap_net_def rec_same_name_def probing_state_def init_state_def)
  from 1 2 3 show ?thesis by simp
qed

text \<open>
  Claim C5 as stated fails. The scan record's SSID field is \<open>net\<close>, NUL, \<open>X\<close>, the
  associated one is \<open>net\<close> followed by NULs: the two 32-byte fields differ and so do the
  BSSIDs, yet the second loop takes the record for a match and the handler leaves
  probing.
\<close>

theorem ssid_pass_accepts_unequal_fields:
  "take 32 (ssid rec_other_tail) \<noteq> take 32 (ssid ap_net) \<and>
   bssid rec_other_tail \<noteq> bssid ap_net \<and>
   event_handler (drv_scan [rec_other_tail]) 20 (WIFI_EVENT_SCAN_DONE 0 1) quirk_state =
     Inr (quirk_state\<lparr>probe_in_progress := False, last_inbound_seen := 20\<rparr>)"
proof -
  have t: "take 32 (ssid rec_other_tail) \<noteq> take 32 (ssid ap_net)" by code_simp
  have b: "bssid rec_other_tail \<noteq> bssid ap_net" by code_simp
  have p1: "\<not> bssid_pass ap_net [rec_other_tail]" by code_simp
  have p2: "ssid_pass ap_net [rec_other_tail]" by code_simp
  have q: "beacon_quirk quirk_state" by (simp add: quirk_state_def)
  have "event_handler (drv_scan [rec_other_tail]) 20 (WIFI_EVENT_SCAN_DONE 0 1) quirk_state =
          Inr (scan_done_result True 20 quirk_state)"
    using p1 p2 q scan_done_event [of "drv_scan [rec_other_tail]" ap_net "[rec_other_tail]" 1 20 quirk_state]
    by (simp add: drv_scan_def del: bssid_pass.simps ssid_pass.simps)
  with t b show ?thesis by (simp add: scan_done_found)
qed


subsection \<open>Credential update\<close>

lemma strlen_stored:
  "length bs \<le> n \<Longrightarrow> (strlen (stored bs (replicate n 0)) \<noteq> 0) = (bs \<noteq> [] \<and> hd bs \<noteq> 0)"
  by (cases bs; cases n) (auto simp: strlen_def stored_def)

lemma send_device_info_trace:
  "trace (send_device_info drv s) =
     trace s @ [Log ''Sending device info'', UartWrite (intron s), UartWrite [MSG_DEVINFO],
                UartWrite [8, 0]]
     @ (case sta_mac drv of
          None \<Rightarrow> [Log ''Failed to obtain MAC, returning last one or zeroes'', UartWrite (mac s)]
        | Some m \<Rightarrow> [UartWrite m])"
  by (simp add: send_device_info_def emit_def Let_def FW_VERSION_def split: option.splits)

lemma send_device_info_rx: "uart_rx (send_device_info drv s) = uart_rx s"
  by (simp add: send_device_info_def emit_def Let_def split: option.splits)

lemma client_config_line:
  assumes "uart_rx s = map Rx (ssid_len # ssid_bytes @ pass_len # pass_bytes) @ rest"
    and "length ssid_bytes = min (unat ssid_len) 32"
    and "length pass_bytes = min (unat pass_len) 64"
    and "set_config_ok drv" and "wifi_start_ok drv"
  shows "read_wifi_client_message drv s =
           Some (Inr (send_device_info drv
             (s\<lparr>uart_rx := rest,
                trace := trace s @ config_logs ssid_len pass_len
                  @ [WifiStop,
                     WifiSetConfig
                       \<lparr>sta_ssid = ssid_bytes @ replicate (32 - length ssid_bytes) 0,
                        sta_password = pass_bytes @ replicate (64 - length pass_bytes) 0,
                        threshold_authmode =
                          (if pass_bytes \<noteq> [] \<and> hd pass_bytes \<noteq> 0
                           then WIFI_AUTH_WPA2_PSK else WIFI_AUTH_OPEN)\<rparr>,
                     WifiStart]\<rparr>)))"
proof -
  have c1: "clamp_len ssid_len SSID_SIZE = length ssid_bytes"
    using assms(2) by (simp add: clamp_len_def SSID_SIZE_def min_def)
  have c2: "clamp_len pass_len PASSWORD_SIZE = length pass_bytes"
    using assms(3) by (simp add: clamp_len_def PASSWORD_SIZE_def min_def)
  have r1: "read_uart (Suc 0) (uart_rx s) =
              Some (Suc 0, [ssid_len], map Rx ssid_bytes @ Rx pass_len # map Rx pass_bytes @ rest)"
    using assms(1) read_uart_one [of ssid_len] by simp
  have r2: "read_uart (length ssid_bytes) (map Rx ssid_bytes @ Rx pass_len # map Rx pass_bytes @ rest) =
              Some (length ssid_bytes, ssid_bytes, Rx pass_len # map Rx pass_bytes @ rest)"
    by (rule read_uart_clean)
  have r3: "read_uart (Suc 0) (Rx pass_len # map Rx pass_bytes @ rest) =
              Some (Suc 0, [pass_len], map Rx pass_bytes @ rest)"
    using read_uart_one [of pass_len] by simp
  have r4: "read_uart (length pass_bytes) (map Rx pass_bytes @ rest) =
              Some (length pass_bytes, pass_bytes, rest)"
    by (rule read_uart_clean)
  have l2: "length pass_bytes \<le> PASSWORD_SIZE"
    using assms(3) by (simp add: PASSWORD_SIZE_def)
  have st: "stored [b] [0] = [b]" for b :: byte by (simp add: stored_def)
  have pw: "stored pass_bytes (replicate PASSWORD_SIZE 0) =
              pass_bytes @ replicate (64 - length pass_bytes) 0"
    by (simp add: stored_def PASSWORD_SIZE_def)
  have ss: "stored ssid_bytes (replicate SSID_SIZE 0) =
              ssid_bytes @ replicate (32 - length ssid_bytes) 0"
    by (simp add: stored_def SSID_SIZE_def)
  have au: "(strlen (pass_bytes @ replicate (64 - length pass_bytes) 0) \<noteq> 0) =
              (pass_bytes \<noteq> [] \<and> hd pass_bytes \<noteq> 0)"
    using strlen_stored [OF l2] by (simp only: pw)
  show ?thesis
    using assms(4,5) au
    by (simp add: read_wifi_client_message_def r1 c1 r2 r3 c2 r4 st first_byte_def pw ss
          Let_def emit_def config_logs_def)
qed

lemma client_config_completes:
  assumes "read_wifi_client_message drv s = Some (Inr s')"
    and "read_uart 1 (uart_rx s) = Some (k1, b1, es1)"
    and "read_uart (clamp_len (first_byte (stored b1 [0])) SSID_SIZE) es1 = Some (k2, b2, es2)"
  shows "\<exists>l2 pw au.
           trace s' = trace s @ config_logs (first_byte (stored b1 [0])) l2
             @ [WifiStop,
                WifiSetConfig \<lparr>sta_ssid = stored b2 (replicate SSID_SIZE 0),
                               sta_password = pw, threshold_authmode = au\<rparr>,
                WifiStart,
                Log ''Sending device info'', UartWrite (intron s), UartWrite [MSG_DEVINFO],
                UartWrite [8, 0]]
             @ (case sta_mac drv of
                  None \<Rightarrow> [Log ''Failed to obtain MAC, returning last one or zeroes'',
                            UartWrite (mac s)]
                | Some m \<Rightarrow> [UartWrite m])"
proof -
  obtain k3 b3 es3 where r3: "read_uart 1 es2 = Some (k3, b3, es3)"
    using assms by (cases "read_uart 1 es2") (auto simp: read_wifi_client_message_def Let_def)
  obtain k4 b4 es4 where
    r4: "read_uart (clamp_len (first_byte (stored b3 [0])) PASSWORD_SIZE) es3 = Some (k4, b4, es4)"
    using assms r3
    by (cases "read_uart (clamp_len (first_byte (stored b3 [0])) PASSWORD_SIZE) es3")
       (auto simp: read_wifi_client_message_def Let_def)
  let ?pw = "stored b4 (replicate PASSWORD_SIZE 0)"
  let ?au = "if strlen ?pw \<noteq> 0 then WIFI_AUTH_WPA2_PSK else WIFI_AUTH_OPEN"
  have "s' = send_device_info drv
          (emit [WifiSetConfig \<lparr>sta_ssid = stored b2 (replicate SSID_SIZE 0),
                                 sta_password = ?pw, threshold_authmode = ?au\<rparr>, WifiStart]
             (emit (config_logs (first_byte (stored b1 [0])) (first_byte (stored b3 [0])) @ [WifiStop])
                (s\<lparr>uart_rx := es4\<rparr>)))"
    using assms r3 r4
    by (simp add: read_wifi_client_message_def Let_def config_logs_def split: if_splits)
  then have "trace s' = trace s @ config_logs (first_byte (stored b1 [0])) (first_byte (stored b3 [0]))
             @ [WifiStop,
                WifiSetConfig \<lparr>sta_ssid = stored b2 (replicate SSID_SIZE 0),
                               sta_password = ?pw, threshold_authmode = ?au\<rparr>,
                WifiStart,
                Log ''Sending device info'', UartWrite (intron s), UartWrite [MSG_DEVINFO],
                UartWrite [8, 0]]
             @ (case sta_mac drv of
                  None \<Rightarrow> [Log ''Failed to obtain MAC, returning last one or zeroes'',
                            UartWrite (mac s)]
                | Some m \<Rightarrow> [UartWrite m])"
    by (simp add: send_device_info_trace emit_def split: option.splits)
  then show ?thesis by blast
qed

text \<open>
  Claim C7, as amended. A ClientConfig body is a length byte and SSID bytes, then a
  length byte and password bytes. The handler stores at most 32 SSID bytes and at most
  64 password bytes: a declared length above that is clamped, and what becomes of the
  declared bytes beyond the clamp is left open here. For a message whose declared SSID
  length is at most 32, the handler stops the radio and configures the station with
  the SSID and the first 64 password bytes, zero-padded; the authentication threshold
  is WPA2-personal exactly when the first password byte is not NUL, so a password of
  length zero, and also one that starts with a NUL byte, gives open authentication;
  and when the driver accepts the configuration and starts, the handler ends by
  emitting a DeviceInfo frame. For a message of any declared SSID length on which the
  handler completes, the SSID it configures is the first 32 declared SSID bytes.
\<close>

theorem client_config_reconfigures:
  "(uart_rx s = map Rx (ssid_len # ssid_bytes @ pass_len # pass_bytes) @ rest \<and>
    length ssid_bytes = unat ssid_len \<and> unat ssid_len \<le> 32 \<and>
    length pass_bytes = unat pass_len \<and> set_config_ok drv \<and> wifi_start_ok drv \<longrightarrow>
    (\<exists>s1. read_wifi_client_message drv s = Some (Inr s1) \<and>
       (unat pass_len \<le> 64 \<longrightarrow> uart_rx s1 = rest) \<and>
       trace s1 =
         trace s @ config_logs ssid_len pass_len
         @ [WifiStop,
            WifiSetConfig
              \<lparr>sta_ssid = ssid_bytes @ replicate (32 - length ssid_bytes) 0,
               sta_password = take 64 pass_bytes @ replicate (64 - length pass_bytes) 0,
               threshold_authmode =
                 (if pass_bytes \<noteq> [] \<and> hd pass_bytes \<noteq> 0
                  then WIFI_AUTH_WPA2_PSK else WIFI_AUTH_OPEN)\<rparr>,
            WifiStart,
            Log ''Sending device info'', UartWrite (intron s), UartWrite [MSG_DEVINFO],
            UartWrite [8, 0]]
         @ (case sta_mac drv of
              None \<Rightarrow> [Log ''Failed to obtain MAC, returning last one or zeroes'',
                        UartWrite (mac s)]
            | Some m \<Rightarrow> [UartWrite m]))) \<and>
   (uart_rx s = map Rx (ssid_len # ssid_bytes) @ rest \<and> length ssid_bytes = unat ssid_len \<and>
    read_wifi_client_message drv s = Some (Inr s') \<longrightarrow>
    (\<exists>l2 pw au.
       trace s' =
         trace s @ config_logs ssid_len l2
         @ [WifiStop,
            WifiSetConfig
              \<lparr>sta_ssid = take 32 ssid_bytes @ replicate (32 - length ssid_bytes) 0,
               sta_password = pw, threshold_authmode = au\<rparr>,
            WifiStart,
            Log ''Sending device info'', UartWrite (intron s), UartWrite [MSG_DEVINFO],
            UartWrite [8, 0]]
         @ (case sta_mac drv of
              None \<Rightarrow> [Log ''Failed to obtain MAC, returning last one or zeroes'',
                        UartWrite (mac s)]
            | Some m \<Rightarrow> [UartWrite m])))"
proof (intro conjI impI)
  assume a: "uart_rx s = map Rx (ssid_len # ssid_bytes @ pass_len # pass_bytes) @ rest \<and>
    length ssid_bytes = unat ssid_len \<and> unat ssid_len \<le> 32 \<and>
    length pass_bytes = unat pass_len \<and> set_config_ok drv \<and> wifi_start_ok drv"
  let ?pb = "take 64 pass_bytes"
  let ?rest = "map Rx (drop 64 pass_bytes) @ rest"
  have l: "uart_rx s = map Rx (ssid_len # ssid_bytes @ pass_len # ?pb) @ ?rest"
  proof -
    have "map Rx pass_bytes = map Rx ?pb @ map Rx (drop 64 pass_bytes)"
      by (simp add: map_append [symmetric] del: map_append)
    with a show ?thesis by simp
  qed
  have l1: "length ssid_bytes = min (unat ssid_len) 32" using a by simp
  have l2: "length ?pb = min (unat pass_len) 64" using a by (simp add: min_def)
  have h: "(?pb \<noteq> [] \<and> hd ?pb \<noteq> 0) = (pass_bytes \<noteq> [] \<and> hd pass_bytes \<noteq> 0)"
    by (cases pass_bytes) auto
  have p: "?pb @ replicate (64 - length ?pb) 0 = ?pb @ replicate (64 - length pass_bytes) 0"
    by (simp add: min_def)
  have r: "unat pass_len \<le> 64 \<Longrightarrow> ?rest = rest" using a by simp
  from client_config_line [OF l l1 l2] a
  have "read_wifi_client_message drv s =
           Some (Inr (send_device_info drv
             (s\<lparr>uart_rx := ?rest,
                trace := trace s @ config_logs ssid_len pass_len
                  @ [WifiStop,
                     WifiSetConfig
                       \<lparr>sta_ssid = ssid_bytes @ replicate (32 - length ssid_bytes) 0,
                        sta_password = ?pb @ replicate (64 - length pass_bytes) 0,
                        threshold_authmode =
                          (if pass_bytes \<noteq> [] \<and> hd pass_bytes \<noteq> 0
                           then WIFI_AUTH_WPA2_PSK else WIFI_AUTH_OPEN)\<rparr>,
                     WifiStart]\<rparr>)))"
    by (simp only: h p)
  then show "\<exists>s1. read_wifi_client_message drv s = Some (Inr s1) \<and>
       (unat pass_len \<le> 64 \<longrightarrow> uart_rx s1 = rest) \<and>
       trace s1 =
         trace s @ config_logs ssid_len pass_len
         @ [WifiStop,
            WifiSetConfig
              \<lparr>sta_ssid = ssid_bytes @ replicate (32 - length ssid_bytes) 0,
               sta_password = take 64 pass_bytes @ replicate (64 - length pass_bytes) 0,
               threshold_authmode =
                 (if pass_bytes \<noteq> [] \<and> hd pass_bytes \<noteq> 0
                  then WIFI_AUTH_WPA2_PSK else WIFI_AUTH_OPEN)\<rparr>,
            WifiStart,
            Log ''Sending device info'', UartWrite (intron s), UartWrite [MSG_DEVINFO],
            UartWrite [8, 0]]
         @ (case sta_mac drv of
              None \<Rightarrow> [Log ''Failed to obtain MAC, returning last one or zeroes'',
                        UartWrite (mac s)]
            | Some m \<Rightarrow> [UartWrite m])"
    using r by (simp add: send_device_info_trace send_device_info_rx split: option.splits)
next
  assume b: "uart_rx s = map Rx (ssid_len # ssid_bytes) @ rest \<and> length ssid_bytes = unat ssid_len \<and>
    read_wifi_client_message drv s = Some (Inr s')"
  have r1: "read_uart 1 (uart_rx s) = Some (1, [ssid_len], map Rx ssid_bytes @ rest)"
    using b read_uart_one [of ssid_len] by simp
  have f: "first_byte (stored [ssid_len] [0]) = ssid_len"
    by (simp add: first_byte_def stored_def)
  have c: "clamp_len ssid_len SSID_SIZE = length (take 32 ssid_bytes)"
    using b by (simp add: clamp_len_def SSID_SIZE_def min_def)
  have "map Rx ssid_bytes @ rest = map Rx (take 32 ssid_bytes) @ (map Rx (drop 32 ssid_bytes) @ rest)"
    by (simp add: map_append [symmetric] del: map_append)
  then have r2: "read_uart (clamp_len (first_byte (stored [ssid_len] [0])) SSID_SIZE)
                   (map Rx ssid_bytes @ rest) =
              Some (length (take 32 ssid_bytes), take 32 ssid_bytes,
                    map Rx (drop 32 ssid_bytes) @ rest)"
    using read_uart_clean [of "take 32 ssid_bytes" "map Rx (drop 32 ssid_bytes) @ rest"]
    by (simp only: f c)
  have ss: "stored (take 32 ssid_bytes) (replicate SSID_SIZE 0) =
              take 32 ssid_bytes @ replicate (32 - length ssid_bytes) 0"
    by (simp add: stored_def SSID_SIZE_def min_def)
  from b have "read_wifi_client_message drv s = Some (Inr s')" by simp
  from client_config_completes [OF this r1 r2] show "\<exists>l2 pw au.
       trace s' =
         trace s @ config_logs ssid_len l2
         @ [WifiStop,
            WifiSetConfig
              \<lparr>sta_ssid = take 32 ssid_bytes @ replicate (32 - length ssid_bytes) 0,
               sta_password = pw, threshold_authmode = au\<rparr>,
            WifiStart,
            Log ''Sending device info'', UartWrite (intron s), UartWrite [MSG_DEVINFO],
            UartWrite [8, 0]]
         @ (case sta_mac drv of
              None \<Rightarrow> [Log ''Failed to obtain MAC, returning last one or zeroes'',
                        UartWrite (mac s)]
            | Some m \<Rightarrow> [UartWrite m])"
    by (simp only: f ss)
qed

text \<open>
  SSID \<open>hi\<close> with password \<open>pwd\<close>: WPA2-personal, then the DeviceInfo frame. SSID
  \<open>hi\<close> with a declared password of 65 bytes: the first 64 are configured. A declared
  SSID of 33 bytes, the last of them NUL: the handler completes and configures the
  first 32.
\<close>

theorem client_config_reconfigures_witness:
  "(\<exists>s1. read_wifi_client_message drv_ok (init_state\<lparr>uart_rx := config_line\<rparr>) = Some (Inr s1) \<and>
     uart_rx s1 = [] \<and>
     trace s1 =
       [Log ''Reading SSID len'', Log ''Reading PASS len'', Log ''Reconfiguring wifi'', WifiStop,
        WifiSetConfig \<lparr>sta_ssid = [0x68, 0x69] @ replicate 30 0,
                       sta_password = [0x70, 0x77, 0x64] @ replicate 61 0,
                       threshold_authmode = WIFI_AUTH_WPA2_PSK\<rparr>,
        WifiStart, Log ''Sending device info'', UartWrite default_intron, UartWrite [MSG_DEVINFO],
        UartWrite [8, 0], UartWrite [0x02, 0, 0, 0, 0, 0x10]]) \<and>
   (\<exists>s1. read_wifi_client_message drv_ok (init_state\<lparr>uart_rx := overlong_pass_line\<rparr>) =
            Some (Inr s1) \<and>
     trace s1 =
       [Log ''Reading SSID len'', Log ''Reading PASS len'', Log ''PASS too long, trimming'',
        Log ''Reconfiguring wifi'', WifiStop,
        WifiSetConfig \<lparr>sta_ssid = [0x68, 0x69] @ replicate 30 0,
                       sta_password = replicate 64 0x70,
                       threshold_authmode = WIFI_AUTH_WPA2_PSK\<rparr>,
        WifiStart, Log ''Sending device info'', UartWrite default_intron, UartWrite [MSG_DEVINFO],
        UartWrite [8, 0], UartWrite [0x02, 0, 0, 0, 0, 0x10]]) \<and>
   (\<exists>s1 (l2 :: byte) pw au. read_wifi_client_message drv_ok (init_state\<lparr>uart_rx := overlong_ssid_line\<rparr>) =
            Some (Inr s1) \<and>
     trace s1 =
       [Log ''Reading SSID len'', Log ''SSID too long, trimming''] @
       (Log ''Reading PASS len''
        # (if unat l2 > PASSWORD_SIZE then [Log ''PASS too long, trimming''] else [])
        @ [Log ''Reconfiguring wifi'']) @
       [WifiStop,
        WifiSetConfig \<lparr>sta_ssid = replicate 32 0x61, sta_password = pw, threshold_authmode = au\<rparr>,
        WifiStart, Log ''Sending device info'', UartWrite default_intron, UartWrite [MSG_DEVINFO],
        UartWrite [8, 0], UartWrite [0x02, 0, 0, 0, 0, 0x10]])"
proof (intro conjI)
  show "\<exists>s1. read_wifi_client_message drv_ok (init_state\<lparr>uart_rx := config_line\<rparr>) = Some (Inr s1) \<and>
     uart_rx s1 = [] \<and>
     trace s1 =
       [Log ''Reading SSID len'', Log ''Reading PASS len'', Log ''Reconfiguring wifi'', WifiStop,
        WifiSetConfig \<lparr>sta_ssid = [0x68, 0x69] @ replicate 30 0,
                       sta_password = [0x70, 0x77, 0x64] @ replicate 61 0,
                       threshold_authmode = WIFI_AUTH_WPA2_PSK\<rparr>,
        WifiStart, Log ''Sending device info'', UartWrite default_intron, UartWrite [MSG_DEVINFO],
        UartWrite [8, 0], UartWrite [0x02, 0, 0, 0, 0, 0x10]]"
    using client_config_reconfigures [of "init_state\<lparr>uart_rx := config_line\<rparr>" 2 "[0x68, 0x69]" 3
            "[0x70, 0x77, 0x64]" "[]" drv_ok]
    by (simp add: init_state_def config_line_def drv_ok_def config_logs_def SSID_SIZE_def
          PASSWORD_SIZE_def)
next
  show "\<exists>s1. read_wifi_client_message drv_ok (init_state\<lparr>uart_rx := overlong_pass_line\<rparr>) =
            Some (Inr s1) \<and>
     trace s1 =
       [Log ''Reading SSID len'', Log ''Reading PASS len'', Log ''PASS too long, trimming'',
        Log ''Reconfiguring wifi'', WifiStop,
        WifiSetConfig \<lparr>sta_ssid = [0x68, 0x69] @ replicate 30 0,
                       sta_password = replicate 64 0x70,
                       threshold_authmode = WIFI_AUTH_WPA2_PSK\<rparr>,
        WifiStart, Log ''Sending device info'', UartWrite default_intron, UartWrite [MSG_DEVINFO],
        UartWrite [8, 0], UartWrite [0x02, 0, 0, 0, 0, 0x10]]"
    using client_config_reconfigures [of "init_state\<lparr>uart_rx := overlong_pass_line\<rparr>" 2
            "[0x68, 0x69]" 65 "replicate 65 0x70" "[]" drv_ok]
    by (simp add: init_state_def overlong_pass_line_def drv_ok_def config_logs_def SSID_SIZE_def
          PASSWORD_SIZE_def)
next
  let ?s = "init_state\<lparr>uart_rx := overlong_ssid_line\<rparr>"
  have l: "uart_rx ?s = map Rx (33 # replicate 32 0x61 @ 0 # []) @ [Rx 0]"
    by (simp add: overlong_ssid_line_def)
  obtain s1 where c: "read_wifi_client_message drv_ok ?s = Some (Inr s1)"
    using client_config_line [OF l, of drv_ok] by (simp add: drv_ok_def)
  have l': "uart_rx ?s = map Rx (33 # (replicate 32 0x61 @ [0])) @ [Rx 0]"
    by (simp add: overlong_ssid_line_def)
  from client_config_reconfigures [of ?s 33 "replicate 32 0x61 @ [0]" _ _ "[Rx 0]" drv_ok s1] l' c
  obtain l2 pw au where
    "trace s1 =
         trace ?s @ config_logs 33 l2
         @ [WifiStop,
            WifiSetConfig
              \<lparr>sta_ssid = take 32 (replicate 32 0x61 @ [0])
                            @ replicate (32 - length (replicate 32 (0x61 :: byte) @ [0])) 0,
               sta_password = pw, threshold_authmode = au\<rparr>,
            WifiStart,
            Log ''Sending device info'', UartWrite (intron ?s), UartWrite [MSG_DEVINFO],
            UartWrite [8, 0]]
         @ (case sta_mac drv_ok of
              None \<Rightarrow> [Log ''Failed to obtain MAC, returning last one or zeroes'',
                        UartWrite (mac ?s)]
            | Some m \<Rightarrow> [UartWrite m])"
    by auto
  then have tr: "trace s1 =
       [Log ''Reading SSID len'', Log ''SSID too long, trimming''] @
       (Log ''Reading PASS len''
        # (if unat l2 > PASSWORD_SIZE then [Log ''PASS too long, trimming''] else [])
        @ [Log ''Reconfiguring wifi'']) @
       [WifiStop,
        WifiSetConfig \<lparr>sta_ssid = replicate 32 0x61, sta_password = pw, threshold_authmode = au\<rparr>,
        WifiStart, Log ''Sending device info'', UartWrite default_intron, UartWrite [MSG_DEVINFO],
        UartWrite [8, 0], UartWrite [0x02, 0, 0, 0, 0, 0x10]]"
    by (simp add: init_state_def drv_ok_def config_logs_def SSID_SIZE_def)
  show "\<exists>s1 (l2 :: byte) pw au. read_wifi_client_message drv_ok ?s = Some (Inr s1) \<and>
     trace s1 =
       [Log ''Reading SSID len'', Log ''SSID too long, trimming''] @
       (Log ''Reading PASS len''
        # (if unat l2 > PASSWORD_SIZE then [Log ''PASS too long, trimming''] else [])
        @ [Log ''Reconfiguring wifi'']) @
       [WifiStop,
        WifiSetConfig \<lparr>sta_ssid = replicate 32 0x61, sta_password = pw, threshold_authmode = au\<rparr>,
        WifiStart, Log ''Sending device info'', UartWrite default_intron, UartWrite [MSG_DEVINFO],
        UartWrite [8, 0], UartWrite [0x02, 0, 0, 0, 0, 0x10]]"
    by (intro exI conjI) (rule c, rule tr)
qed

text \<open>
  Claim C7 as stated fails. The message declares a password of three bytes, NUL, \<open>w\<close>,
  \<open>d\<close>: the password is not empty, and the station is configured with open
  authentication.
\<close>

theorem nul_password_gives_open_auth:
  "read_wifi_client_message drv_ok (init_state\<lparr>uart_rx := nul_password_line\<rparr>) =
     Some (Inr (init_state\<lparr>mac := [0x02, 0, 0, 0, 0, 0x10],
       trace :=
         [Log ''Reading SSID len'', Log ''Reading PASS len'', Log ''Reconfiguring wifi'', WifiStop,
          WifiSetConfig \<lparr>sta_ssid = [0x68, 0x69] @ replicate 30 0,
                         sta_password = [0, 0x77, 0x64] @ replicate 61 0,
                         threshold_authmode = WIFI_AUTH_OPEN\<rparr>,
          WifiStart, Log ''Sending device info'', UartWrite default_intron, UartWrite [MSG_DEVINFO],
          UartWrite [8, 0], UartWrite [0x02, 0, 0, 0, 0, 0x10]]\<rparr>))"
proof -
  have r1: "read_uart (Suc 0) (Rx b # es) = Some (Suc 0, [b], es)" for b es
    using read_uart_one [of b es] by simp
  have r2: "read_uart 2 (Rx a # Rx b # es) = Some (2, [a, b], es)" for a b es
    using read_uart_clean [of "[a, b]" es] by (simp add: numeral_2_eq_2)
  have r3: "read_uart 3 (Rx a # Rx b # Rx c # es) = Some (3, [a, b, c], es)" for a b c es
    using read_uart_clean [of "[a, b, c]" es] by (simp add: numeral_3_eq_3)
  show ?thesis
    by (simp add: read_wifi_client_message_def nul_password_line_def init_state_def r1 r2 r3
          stored_def first_byte_def clamp_len_def SSID_SIZE_def PASSWORD_SIZE_def strlen_def
          Let_def drv_ok_def send_device_info_def emit_def FW_VERSION_def)
qed


end
